theory Spec2Isabelle
  imports Complex_Main
begin

section \<open>Strings\<close>

text \<open>
  \<open>String.prototype.split(sep)\<close> for a one-character separator: the pieces between the
  separators, in order; a string without the separator (the empty string too) gives
  one piece. It is used by \<open>updatePositioner\<close> (on \<open>'-'\<close>) and by \<open>hasTrigger\<close>
  (on \<open>' '\<close>).
\<close>

fun split :: "char \<Rightarrow> string \<Rightarrow> string list" where
  "split sep [] = [[]]"
| "split sep (c # cs) =
     (if c = sep then [] # split sep cs
      else (case split sep cs of
              [] \<Rightarrow> [[c]]
            | w # ws \<Rightarrow> (c # w) # ws))"

text \<open>
  The array destructuring \<open>const [position, alignment] = placement.split('-')\<close>: the
  first two pieces, \<open>None\<close> standing for \<open>undefined\<close>.
\<close>

definition position_of :: "string \<Rightarrow> string option" where
  "position_of placement =
     (case split CHR ''-'' placement of [] \<Rightarrow> None | p # _ \<Rightarrow> Some p)"

definition alignment_of :: "string \<Rightarrow> string option" where
  "alignment_of placement =
     (case split CHR ''-'' placement of
        [] \<Rightarrow> None
      | [_] \<Rightarrow> None
      | _ # a # _ \<Rightarrow> Some a)"

section \<open>The tooltip's positioner\<close>

text \<open>
  What \<open>updatePositioner\<close> reads: the target's bounding rectangle, the popup's offset
  size and the window's size. Coordinates are JavaScript numbers; they are modelled as
  real numbers, so the rounding of the floating-point operations is not part of the model.
\<close>

record layout =
  targetTop :: real
  targetLeft :: real
  targetHeight :: real
  targetWidth :: real
  popupHeight :: real
  popupWidth :: real
  windowHeight :: real
  windowWidth :: real

text \<open>The style \<open>updatePositioner\<close> writes on the popup.\<close>

record popup_css =
  css_top :: real
  css_left :: real
  css_transformOrigin :: string

definition isRich :: "string \<Rightarrow> bool" where
  "isRich variant = (variant = ''rich'')"

text \<open>The gap between the target and the popup, and between the popup and the viewport.\<close>

definition targetMargin :: "string \<Rightarrow> real" where
  "targetMargin variant = (if isRich variant then 0 else 4)"

definition popupMargin :: real where
  "popupMargin = 4"

definition popupXSpace :: "string \<Rightarrow> layout \<Rightarrow> real" where
  "popupXSpace variant g = popupWidth g + targetMargin variant + popupMargin"

definition popupYSpace :: "string \<Rightarrow> layout \<Rightarrow> real" where
  "popupYSpace variant g = popupHeight g + targetMargin variant + popupMargin"

definition hasTopSpace :: "string \<Rightarrow> layout \<Rightarrow> bool" where
  "hasTopSpace variant g = (targetTop g > popupYSpace variant g)"

definition hasBottomSpace :: "string \<Rightarrow> layout \<Rightarrow> bool" where
  "hasBottomSpace variant g =
     (windowHeight g - targetTop g - targetHeight g > popupYSpace variant g)"

definition hasLeftSpace :: "string \<Rightarrow> layout \<Rightarrow> bool" where
  "hasLeftSpace variant g = (targetLeft g > popupXSpace variant g)"

definition hasRightSpace :: "string \<Rightarrow> layout \<Rightarrow> bool" where
  "hasRightSpace variant g =
     (windowWidth g - targetLeft g - targetWidth g > popupXSpace variant g)"

text \<open>
  The local variable \<open>placement\<close> of \<open>updatePositioner\<close> after its first block: the
  property's value, or what stands for it when the value is \<open>auto\<close>.
\<close>

definition resolvePlacement :: "string \<Rightarrow> string \<Rightarrow> layout \<Rightarrow> string" where
  "resolvePlacement variant placement g =
     (if placement = ''auto'' then
        (if isRich variant then
           (if hasBottomSpace variant g \<and> hasRightSpace variant g then ''bottom-right''
            else if hasBottomSpace variant g \<and> hasLeftSpace variant g then ''bottom-left''
            else if hasTopSpace variant g \<and> hasRightSpace variant g then ''top-right''
            else if hasTopSpace variant g \<and> hasLeftSpace variant g then ''top-left''
            else if hasBottomSpace variant g then ''bottom''
            else if hasTopSpace variant g then ''top''
            else if hasRightSpace variant g then ''right''
            else if hasLeftSpace variant g then ''left''
            else ''bottom-right'')
         else
           (if hasTopSpace variant g then ''top''
            else if hasBottomSpace variant g then ''bottom''
            else if hasLeftSpace variant g then ''left''
            else if hasRightSpace variant g then ''right''
            else ''top''))
      else placement)"

text \<open>
  The first \<open>switch\<close> of \<open>updatePositioner\<close>: \<open>transformOriginY\<close> and \<open>top\<close>.
\<close>

definition verticalAxis ::
  "string \<Rightarrow> layout \<Rightarrow> string option \<Rightarrow> string option \<Rightarrow> string \<times> real" where
  "verticalAxis variant g position alignment =
     (if position = Some ''top'' then
        (''bottom'', targetTop g - popupHeight g - targetMargin variant)
      else if position = Some ''bottom'' then
        (''top'', targetTop g + targetHeight g + targetMargin variant)
      else
        (''center'',
         if alignment = Some ''start'' then targetTop g
         else if alignment = Some ''end'' then targetTop g + targetHeight g - popupHeight g
         else targetTop g + targetHeight g / 2 - popupHeight g / 2))"

text \<open>
  The second \<open>switch\<close>: \<open>transformOriginX\<close> and \<open>left\<close>. Under a position that is
  neither \<open>left\<close> nor \<open>right\<close>, the alignments \<open>left\<close> and \<open>right\<close> (of the corner
  placements) put the popup beside the target and replace the origin \<open>center\<close>.
\<close>

definition horizontalAxis ::
  "string \<Rightarrow> layout \<Rightarrow> string option \<Rightarrow> string option \<Rightarrow> string \<times> real" where
  "horizontalAxis variant g position alignment =
     (if position = Some ''left'' then
        (''right'', targetLeft g - popupWidth g - targetMargin variant)
      else if position = Some ''right'' then
        (''left'', targetLeft g + targetWidth g + targetMargin variant)
      else if alignment = Some ''start'' then
        (''center'', targetLeft g)
      else if alignment = Some ''end'' then
        (''center'', targetLeft g + targetWidth g - popupWidth g)
      else if alignment = Some ''left'' then
        (''right'', targetLeft g - popupWidth g - targetMargin variant)
      else if alignment = Some ''right'' then
        (''left'', targetLeft g + targetWidth g + targetMargin variant)
      else
        (''center'', targetLeft g + targetWidth g / 2 - popupWidth g / 2))"

definition updatePositioner :: "string \<Rightarrow> string \<Rightarrow> layout \<Rightarrow> popup_css" where
  "updatePositioner variant placement g =
     (let resolved = resolvePlacement variant placement g;
          position = position_of resolved;
          alignment = alignment_of resolved;
          (transformOriginY, top) = verticalAxis variant g position alignment;
          (transformOriginX, left) = horizontalAxis variant g position alignment
      in \<lparr> css_top = top,
           css_left = left,
           css_transformOrigin = transformOriginX @ '' '' @ transformOriginY \<rparr>)"

text \<open>
  The placements the property's documentation lists besides \<open>auto\<close>.
\<close>

definition concrete_placements :: "string list" where
  "concrete_placements =
     [''top-left'', ''top-start'', ''top'', ''top-end'', ''top-right'',
      ''bottom-left'', ''bottom-start'', ''bottom'', ''bottom-end'', ''bottom-right'',
      ''left-start'', ''left'', ''left-end'',
      ''right-start'', ''right'', ''right-end'']"

text \<open>
  The order of the comment in \<open>updatePositioner\<close>, as a list of guarded choices: the first
  guard that holds gives the placement, and the default stands when none holds.
\<close>

fun first_match :: "(bool \<times> 'a) list \<Rightarrow> 'a \<Rightarrow> 'a" where
  "first_match [] d = d"
| "first_match ((b, x) # rest) d = (if b then x else first_match rest d)"

text \<open>A target near the bottom-right corner of a window of 1000 by 800.\<close>

definition corner_layout :: layout where
  "corner_layout =
     \<lparr> targetTop = 700, targetLeft = 900, targetHeight = 60, targetWidth = 80,
       popupHeight = 100, popupWidth = 200, windowHeight = 800, windowWidth = 1000 \<rparr>"

text \<open>A target in a window too small for the popup on every side.\<close>

definition cramped_layout :: layout where
  "cramped_layout =
     \<lparr> targetTop = 40, targetLeft = 40, targetHeight = 20, targetWidth = 20,
       popupHeight = 100, popupWidth = 200, windowHeight = 100, windowWidth = 100 \<rparr>"

section \<open>The tooltip's triggers\<close>

text \<open>
  \<open>openDelay\<close> and \<open>closeDelay\<close> are properties of type \<open>Number\<close>: a number of
  milliseconds (whole ones here), or \<open>NaN\<close> when the attribute does not parse. Zero
  and \<open>NaN\<close> are the falsy numbers.
\<close>

datatype number = Num int | NaN

text \<open>The expression \<open>d || k\<close> for a number \<open>d\<close> and a non-zero literal \<open>k\<close>.\<close>

fun or_else :: "number \<Rightarrow> int \<Rightarrow> int" where
  "or_else (Num n) k = (if n \<noteq> 0 then n else k)"
| "or_else NaN k = k"

text \<open>
  The three functions the component hands to \<open>window.setTimeout\<close>: in \<open>onMouseEnter\<close>
  (\<open>this.open = true\<close>), in \<open>onMouseLeave\<close> (\<open>this.requestClose()\<close>) and in the
  callback of \<open>requestClose\<close> (\<open>this.open = false\<close>).
\<close>

datatype callback = OpenTrue | RequestClose | OpenFalse

text \<open>
  A pending timer of the window: its handle, the time at which it was set, the delay it
  was given, and what it runs. A negative delay counts as zero.
\<close>

record timer =
  timer_id :: nat
  started :: nat
  delay :: int
  action :: callback

definition due :: "timer \<Rightarrow> nat" where
  "due t = started t + nat (delay t)"

text \<open>
  The fields of a tooltip: its reflected properties, \<open>hasUpdated\<close> of the base element,
  the \<open>hidden\<close> flag of its popup, the timer slot \<open>hoverTimeout\<close> (\<open>None\<close> for
  \<open>undefined\<close>), and the two fields of its hover controller that the component uses:
  \<open>isHover\<close>, and the number of one-shot callbacks \<open>requestClose\<close> has registered with
  \<open>hoverController.onMouseLeave\<close> (they are all the same function).
\<close>

record tooltip =
  variant :: string
  placement :: string
  openDelay :: number
  closeDelay :: number
  trigger :: string
  disabled :: bool
  open_flag :: bool
  hasUpdated :: bool
  popupHidden :: bool
  hoverTimeout :: "nat option"
  isHover :: bool
  mouseLeaveItems :: nat

text \<open>A tooltip together with the window's clock (in milliseconds) and timers.\<close>

record machine = tooltip +
  now :: nat
  nextHandle :: nat
  timers :: "timer list"

definition hasTrigger :: "'a tooltip_scheme \<Rightarrow> string \<Rightarrow> bool" where
  "hasTrigger s tr = (tr \<in> set (split CHR '' '' (trigger s)))"

text \<open>\<open>window.setTimeout\<close> returns a fresh handle; \<open>window.clearTimeout\<close> of a handle that
  is not pending, or of \<open>undefined\<close>, does nothing.\<close>

definition setTimeout :: "callback \<Rightarrow> int \<Rightarrow> machine \<Rightarrow> nat \<times> machine" where
  "setTimeout cb d s =
     (nextHandle s,
      s\<lparr> timers := timers s @ [\<lparr> timer_id = nextHandle s, started = now s,
                                  delay = d, action = cb \<rparr>],
         nextHandle := Suc (nextHandle s) \<rparr>)"

definition clearTimeout :: "nat option \<Rightarrow> machine \<Rightarrow> machine" where
  "clearTimeout slot s =
     (case slot of
        None \<Rightarrow> s
      | Some h \<Rightarrow> s\<lparr> timers := filter (\<lambda>t. timer_id t \<noteq> h) (timers s) \<rparr>)"

text \<open>
  The function \<open>requestClose\<close> registers with \<open>hoverController.onMouseLeave\<close>: run
  once, when the pointer next leaves the popup.
\<close>

definition afterPopupLeave :: "machine \<Rightarrow> machine" where
  "afterPopupLeave s =
     (if hasTrigger s ''hover'' then
        (let (h, s') = setTimeout OpenFalse (or_else (closeDelay s) 50) s
         in s'\<lparr> hoverTimeout := Some h \<rparr>)
      else s\<lparr> open_flag := False \<rparr>)"

definition requestClose :: "machine \<Rightarrow> machine" where
  "requestClose s =
     (if \<not> isHover s then s\<lparr> open_flag := False \<rparr>
      else s\<lparr> mouseLeaveItems := Suc (mouseLeaveItems s) \<rparr>)"

definition onFocus :: "machine \<Rightarrow> machine" where
  "onFocus s =
     (if disabled s \<or> open_flag s \<or> \<not> hasTrigger s ''focus'' then s
      else s\<lparr> open_flag := True \<rparr>)"

definition onBlur :: "machine \<Rightarrow> machine" where
  "onBlur s =
     (if disabled s \<or> \<not> open_flag s \<or> \<not> hasTrigger s ''focus'' then s
      else requestClose s)"

text \<open>\<open>onClick\<close> reads the event's \<open>button\<close>: zero is the primary button.\<close>

definition onClick :: "int \<Rightarrow> machine \<Rightarrow> machine" where
  "onClick button s =
     (if disabled s \<or> button \<noteq> 0 \<or> \<not> hasTrigger s ''click'' then s
      else if open_flag s \<and> (hasTrigger s ''hover'' \<or> hasTrigger s ''focus'') then s
      else s\<lparr> open_flag := \<not> open_flag s \<rparr>)"

text \<open>\<open>onKeydown\<close> reads the event's \<open>key\<close>; it also stops the event's propagation,
  which changes nothing of the tooltip.\<close>

definition onKeydown :: "string \<Rightarrow> machine \<Rightarrow> machine" where
  "onKeydown key s =
     (if disabled s \<or> \<not> open_flag s \<or> key \<noteq> ''Escape'' then s
      else requestClose s)"

definition onMouseEnter :: "machine \<Rightarrow> machine" where
  "onMouseEnter s =
     (if disabled s \<or> open_flag s \<or> \<not> hasTrigger s ''hover'' then s
      else (case openDelay s of
              Num n \<Rightarrow>
                (if n \<noteq> 0 then
                   (let (h, s') = setTimeout OpenTrue n (clearTimeout (hoverTimeout s) s)
                    in s'\<lparr> hoverTimeout := Some h \<rparr>)
                 else s\<lparr> open_flag := True \<rparr>)
            | NaN \<Rightarrow> s\<lparr> open_flag := True \<rparr>))"

definition onMouseLeave :: "machine \<Rightarrow> machine" where
  "onMouseLeave s =
     (let s1 = clearTimeout (hoverTimeout s) s
      in if disabled s1 \<or> \<not> open_flag s1 \<or> \<not> hasTrigger s1 ''hover'' then s1
         else (let (h, s2) = setTimeout RequestClose (or_else (closeDelay s1) 50) s1
               in s2\<lparr> hoverTimeout := Some h \<rparr>))"

text \<open>\<open>onDocumentClick\<close> reads whether the event's composed path includes the tooltip.\<close>

definition onDocumentClick :: "bool \<Rightarrow> machine \<Rightarrow> machine" where
  "onDocumentClick pathIncludesThis s =
     (if disabled s \<or> \<not> open_flag s then s
      else if \<not> pathIncludesThis then requestClose s
      else s)"

subsection \<open>The window and the hover controller\<close>

fun run_callback :: "callback \<Rightarrow> machine \<Rightarrow> machine" where
  "run_callback OpenTrue s = s\<lparr> open_flag := True \<rparr>"
| "run_callback RequestClose s = requestClose s"
| "run_callback OpenFalse s = s\<lparr> open_flag := False \<rparr>"

text \<open>
  The window runs a pending timer no earlier than its delay after it was set, and once.
\<close>

definition fire :: "nat \<Rightarrow> machine \<Rightarrow> machine" where
  "fire h s =
     (case find (\<lambda>t. timer_id t = h) (timers s) of
        None \<Rightarrow> s
      | Some t \<Rightarrow>
          if due t \<le> now s then
            run_callback (action t) (s\<lparr> timers := filter (\<lambda>t. timer_id t \<noteq> h) (timers s) \<rparr>)
          else s)"

definition tick :: "nat \<Rightarrow> machine \<Rightarrow> machine" where
  "tick dt s = s\<lparr> now := now s + dt \<rparr>"

text \<open>
  Modelled from the spec: the hover controller (\<open>HoverController\<close>, imported from the
  shared package and not among the sources) tracks "whether the pointer currently sits
  over the popup surface", and a callback given to its \<open>onMouseLeave\<close> with the flag
  \<open>true\<close> is a one-shot "pointer left popup" listener.
\<close>

definition popupEnter :: "machine \<Rightarrow> machine" where
  "popupEnter s = s\<lparr> isHover := True \<rparr>"

definition popupLeave :: "machine \<Rightarrow> machine" where
  "popupLeave s =
     ((afterPopupLeave ^^ mouseLeaveItems s) (s\<lparr> isHover := False, mouseLeaveItems := 0 \<rparr>))"

datatype event =
    Focus | Blur | PointerDown int | Keydown string | MouseEnter | MouseLeave
  | DocumentPointerDown bool | PopupEnter | PopupLeave | Tick nat | Fire nat

fun step :: "event \<Rightarrow> machine \<Rightarrow> machine" where
  "step Focus s = onFocus s"
| "step Blur s = onBlur s"
| "step (PointerDown button) s = onClick button s"
| "step (Keydown key) s = onKeydown key s"
| "step MouseEnter s = onMouseEnter s"
| "step MouseLeave s = onMouseLeave s"
| "step (DocumentPointerDown pathIncludesThis) s = onDocumentClick pathIncludesThis s"
| "step PopupEnter s = popupEnter s"
| "step PopupLeave s = popupLeave s"
| "step (Tick dt) s = tick dt s"
| "step (Fire h) s = fire h s"

definition run :: "event list \<Rightarrow> machine \<Rightarrow> machine" where
  "run es s = fold step es s"

fun elapsed :: "event list \<Rightarrow> nat" where
  "elapsed [] = 0"
| "elapsed (Tick dt # es) = dt + elapsed es"
| "elapsed (_ # es) = elapsed es"

text \<open>A tooltip as its constructor leaves it, in a window with no timer.\<close>

definition initial :: machine where
  "initial =
     \<lparr> variant = ''plain'', placement = ''auto'', openDelay = Num 150, closeDelay = Num 150,
       trigger = ''hover focus'', disabled = False, open_flag = False, hasUpdated = False,
       popupHidden = True, hoverTimeout = None, isHover = False, mouseLeaveItems = 0,
       now = 0, nextHandle = 1, timers = [] \<rparr>"

section \<open>The tooltip's reaction to a change of \<open>open\<close>\<close>

text \<open>
  \<open>onOpenChange\<close> runs when the property \<open>open\<close> of a tooltip has changed. It acts on
  the document: the tooltips of the page, numbered by their place in it. What it does
  besides writing fields is recorded, in order, in a trace: the events it emits, the
  writes of \<open>open\<close> on other tooltips, and the calls on its popup.
\<close>

datatype animation = Entrance | Exit

datatype effect =
    Emit nat string
  | PropOpen nat bool
  | StopAnimations nat
  | SetHidden nat bool
  | Positioned nat
  | AnimateTo nat animation bool

text \<open>In \<open>AnimateTo i a z\<close> the flag \<open>z\<close> says that the duration is zero (the first
  render) and not the theme's short duration.\<close>

record page =
  elements :: "tooltip list"
  trace :: "effect list"

text \<open>
  The tooltips \<open>$(`mdui-tooltip[variant="..."]`).filter(...)\<close> selects: every other
  tooltip of the page with the variant of tooltip \<open>i\<close>, in document order. The selector
  reads the attribute, which reflects the property; the variant is written into the
  selector as it is, which selects by equality for \<open>plain\<close> and \<open>rich\<close>, whose text
  needs no escaping.
\<close>

definition others :: "nat \<Rightarrow> tooltip list \<Rightarrow> nat list" where
  "others i ts = filter (\<lambda>j. j \<noteq> i \<and> variant (ts ! j) = variant (ts ! i)) [0..<length ts]"

definition closeOthers :: "nat \<Rightarrow> tooltip list \<Rightarrow> tooltip list" where
  "closeOthers i ts =
     map (\<lambda>j. if j \<in> set (others i ts) then (ts ! j)\<lparr> open_flag := False \<rparr> else ts ! j)
       [0..<length ts]"

text \<open>
  \<open>emit\<close> of the base element returns whether the event proceeded. The listeners of the
  page are a parameter: \<open>prevented i name\<close> says that a listener of tooltip \<open>i\<close> calls
  \<open>preventDefault\<close> on its event \<open>name\<close>. Only a cancelable event can be stopped.
\<close>

definition emit :: "(nat \<Rightarrow> string \<Rightarrow> bool) \<Rightarrow> nat \<Rightarrow> string \<Rightarrow> bool \<Rightarrow> page \<Rightarrow> bool \<times> page" where
  "emit prevented i name cancelable pg =
     (\<not> (cancelable \<and> prevented i name), pg\<lparr> trace := trace pg @ [Emit i name] \<rparr>)"

definition setPopupHidden :: "nat \<Rightarrow> bool \<Rightarrow> page \<Rightarrow> page" where
  "setPopupHidden i h pg =
     pg\<lparr> elements := (elements pg)[i := (elements pg ! i)\<lparr> popupHidden := h \<rparr>],
        trace := trace pg @ [SetHidden i h] \<rparr>"

definition record_effect :: "effect \<Rightarrow> page \<Rightarrow> page" where
  "record_effect e pg = pg\<lparr> trace := trace pg @ [e] \<rparr>"

text \<open>The part of the opening branch after the \<open>open\<close> event.\<close>

definition showPopup :: "(nat \<Rightarrow> string \<Rightarrow> bool) \<Rightarrow> nat \<Rightarrow> bool \<Rightarrow> page \<Rightarrow> page" where
  "showPopup prevented i updated pg =
     (let pg1 = record_effect (StopAnimations i) pg;
          pg2 = setPopupHidden i False pg1;
          pg3 = record_effect (Positioned i) pg2;
          pg4 = record_effect (AnimateTo i Entrance (\<not> updated)) pg3
      in if updated then snd (emit prevented i ''opened'' False pg4) else pg4)"

text \<open>
  The function reads \<open>hasUpdated\<close> once, on entry. It never writes the \<open>open\<close> of its
  own tooltip. The points where it awaits (the definition of the element, the first
  update, the animations) are run through in order: what other tasks do meanwhile is
  not part of the model.
\<close>

definition onOpenChange :: "(nat \<Rightarrow> string \<Rightarrow> bool) \<Rightarrow> nat \<Rightarrow> page \<Rightarrow> page" where
  "onOpenChange prevented i pg =
     (let updated = hasUpdated (elements pg ! i) in
      if open_flag (elements pg ! i) then
        (let pg1 = pg\<lparr> elements := closeOthers i (elements pg),
                      trace := trace pg @ map (\<lambda>j. PropOpen j False) (others i (elements pg)) \<rparr>
         in if updated then
              (let (eventProceeded, pg2) = emit prevented i ''open'' True pg1
               in if \<not> eventProceeded then pg2 else showPopup prevented i updated pg2)
            else showPopup prevented i updated pg1)
      else if updated then
        (let (eventProceeded, pg1) = emit prevented i ''close'' True pg
         in if \<not> eventProceeded then pg1
            else (let pg2 = record_effect (StopAnimations i) pg1;
                      pg3 = record_effect (AnimateTo i Exit False) pg2;
                      pg4 = setPopupHidden i True pg3
                  in snd (emit prevented i ''closed'' False pg4)))
      else pg)"

text \<open>A rendered tooltip with the given variant and state of \<open>open\<close>.\<close>

definition rendered :: "string \<Rightarrow> bool \<Rightarrow> tooltip" where
  "rendered v opn =
     \<lparr> variant = v, placement = ''auto'', openDelay = Num 150, closeDelay = Num 150,
       trigger = ''hover focus'', disabled = False, open_flag = opn, hasUpdated = True,
       popupHidden = \<not> opn, hoverTimeout = None, isHover = False, mouseLeaveItems = 0 \<rparr>"

section \<open>The switch\<close>

text \<open>
  The fields of a switch. The validity of its inner checkbox is the browser's: it is a
  parameter of the two functions, \<open>native s\<close> being what \<open>checkValidity()\<close> and
  \<open>reportValidity()\<close> of the checkbox return in the state \<open>s\<close>.
\<close>

record switch =
  switch_disabled :: bool
  checked :: bool
  defaultChecked :: bool
  required :: bool
  switch_name :: string
  switch_value :: string
  invalid :: bool

datatype switch_effect = EmitInvalid | BlurElement | FocusElement

text \<open>Each function gives what it returns, what it does besides, and the fields after.\<close>

definition checkValidity :: "(switch \<Rightarrow> bool) \<Rightarrow> switch \<Rightarrow> bool \<times> switch_effect list \<times> switch" where
  "checkValidity native s =
     (let valid = native s
      in (valid, (if \<not> valid then [EmitInvalid] else []), s))"

text \<open>\<open>prevented\<close> says that a listener calls \<open>preventDefault\<close> on the \<open>invalid\<close> event.\<close>

definition reportValidity ::
  "(switch \<Rightarrow> bool) \<Rightarrow> bool \<Rightarrow> switch \<Rightarrow> bool \<times> switch_effect list \<times> switch" where
  "reportValidity native prevented s =
     (let s1 = s\<lparr> invalid := \<not> native s \<rparr>;
          effects =
            (if invalid s1 then
               EmitInvalid # (if prevented then [BlurElement, FocusElement] else [])
             else [])
      in (\<not> invalid s1, effects, s1))"

text \<open>The browser's rule for a checkbox that is not disabled and has no custom message:
  a required checkbox must be checked.\<close>

definition required_rule :: "switch \<Rightarrow> bool" where
  "required_rule s = (\<not> (\<not> switch_disabled s \<and> required s \<and> \<not> checked s))"

definition unchecked_required :: switch where
  "unchecked_required =
     \<lparr> switch_disabled = False, checked = False, defaultChecked = False, required = True,
       switch_name = [], switch_value = ''on'', invalid = False \<rparr>"

section \<open>States used in the properties of the triggers\<close>

text \<open>
  A closed tooltip whose only trigger is \<open>hover\<close>, with no callback waiting for the pointer
  to leave the popup, and with no pending timer, or with one only: a timer that opens,
  held in the slot \<open>hoverTimeout\<close> and not due for more than \<open>k\<close> milliseconds.
\<close>

definition calm :: "nat \<Rightarrow> machine \<Rightarrow> bool" where
  "calm k s =
     (trigger s = ''hover'' \<and> \<not> open_flag s \<and> mouseLeaveItems s = 0 \<and>
      (timers s = [] \<or>
       (\<exists>t. timers s = [t] \<and> action t = OpenTrue \<and>
            hoverTimeout s = Some (timer_id t) \<and> now s + k < due t)))"

text \<open>Every pending timer is the one whose handle the slot \<open>hoverTimeout\<close> holds.\<close>

definition slot_holds_all :: "machine \<Rightarrow> bool" where
  "slot_holds_all s =
     (length (timers s) \<le> 1 \<and> list_all (\<lambda>t. hoverTimeout s = Some (timer_id t)) (timers s))"

text \<open>A tooltip with the trigger \<open>hover\<close> only, closed and open.\<close>

definition hover_closed :: machine where
  "hover_closed = initial\<lparr> trigger := ''hover'' \<rparr>"

definition hover_open :: machine where
  "hover_open = initial\<lparr> trigger := ''hover'', open_flag := True, popupHidden := False \<rparr>"

text \<open>An open tooltip that the pointer has left and a pointer-down outside has closed.\<close>

definition left_and_closed :: machine where
  "left_and_closed = run [MouseLeave, DocumentPointerDown False] hover_open"

text \<open>The open tooltip with a \<open>closeDelay\<close> of zero.\<close>

definition hover_open_zero :: machine where
  "hover_open_zero = hover_open\<lparr> closeDelay := Num 0 \<rparr>"

text \<open>The open tooltip while the pointer is over its popup.\<close>

definition hovered_popup :: machine where
  "hovered_popup = popupEnter hover_open"


section \<open>Pages used in the properties of \<open>onOpenChange\<close>\<close>

text \<open>
  A page of three rendered tooltips, all with \<open>open\<close> set: two plain ones, of which the
  second has just been opened, and a rich one.
\<close>

definition three_tooltips :: page where
  "three_tooltips =
     \<lparr> elements = [rendered ''plain'' True, rendered ''plain'' True, rendered ''rich'' True],
       trace = [] \<rparr>"

text \<open>Listeners that call \<open>preventDefault\<close> on every event, and listeners that never do.\<close>

definition always_prevented :: "nat \<Rightarrow> string \<Rightarrow> bool" where
  "always_prevented i name = True"

definition never_prevented :: "nat \<Rightarrow> string \<Rightarrow> bool" where
  "never_prevented i name = False"

text \<open>A page whose only tooltip has had \<open>open\<close> unset by another: its popup is still shown.\<close>

definition closed_by_second :: page where
  "closed_by_second =
     \<lparr> elements = [(rendered ''plain'' True)\<lparr> open_flag := False \<rparr>], trace = [] \<rparr>"

text \<open>Listeners that call \<open>preventDefault\<close> on the \<open>close\<close> event of tooltip \<open>k\<close> only.\<close>

definition rejects_close :: "nat \<Rightarrow> nat \<Rightarrow> string \<Rightarrow> bool" where
  "rejects_close k i name = (i = k \<and> name = ''close'')"

section \<open>Properties of the positioner\<close>

lemma placement_parts:
  "position_of ''top-left'' = Some ''top''" "alignment_of ''top-left'' = Some ''left''"
  "position_of ''top-start'' = Some ''top''" "alignment_of ''top-start'' = Some ''start''"
  "position_of ''top'' = Some ''top''" "alignment_of ''top'' = None"
  "position_of ''top-end'' = Some ''top''" "alignment_of ''top-end'' = Some ''end''"
  "position_of ''top-right'' = Some ''top''" "alignment_of ''top-right'' = Some ''right''"
  "position_of ''bottom-left'' = Some ''bottom''" "alignment_of ''bottom-left'' = Some ''left''"
  "position_of ''bottom-start'' = Some ''bottom''" "alignment_of ''bottom-start'' = Some ''start''"
  "position_of ''bottom'' = Some ''bottom''" "alignment_of ''bottom'' = None"
  "position_of ''bottom-end'' = Some ''bottom''" "alignment_of ''bottom-end'' = Some ''end''"
  "position_of ''bottom-right'' = Some ''bottom''" "alignment_of ''bottom-right'' = Some ''right''"
  "position_of ''left-start'' = Some ''left''" "alignment_of ''left-start'' = Some ''start''"
  "position_of ''left'' = Some ''left''" "alignment_of ''left'' = None"
  "position_of ''left-end'' = Some ''left''" "alignment_of ''left-end'' = Some ''end''"
  "position_of ''right-start'' = Some ''right''" "alignment_of ''right-start'' = Some ''start''"
  "position_of ''right'' = Some ''right''" "alignment_of ''right'' = None"
  "position_of ''right-end'' = Some ''right''" "alignment_of ''right-end'' = Some ''end''"
  by (simp_all add: position_of_def alignment_of_def)

lemma resolve_concrete:
  "pl \<in> set concrete_placements \<Longrightarrow> resolvePlacement v pl g = pl"
  by (auto simp: concrete_placements_def resolvePlacement_def)

lemma resolve_auto_concrete:
  "resolvePlacement v ''auto'' g \<in> set concrete_placements"
  by (simp add: resolvePlacement_def concrete_placements_def)

text \<open>
  C1, as amended. For every layout, variant and placement of the documented list (so not
  \<open>auto\<close>), \<open>updatePositioner\<close> writes the transform origin \<open>originX originY\<close> and the
  coordinates given by the position and the alignment of the placement. Vertically:
  position \<open>top\<close> gives origin \<open>bottom\<close> and \<open>top = targetTop - popupHeight - targetMargin\<close>;
  position \<open>bottom\<close> gives origin \<open>top\<close> and \<open>top = targetTop + targetHeight + targetMargin\<close>;
  otherwise the origin is \<open>center\<close>, and \<open>top\<close> is \<open>targetTop\<close> for the alignment
  \<open>start\<close>, \<open>targetTop + targetHeight - popupHeight\<close> for \<open>end\<close>, and the centred value
  with no alignment. Horizontally the positions \<open>left\<close> and \<open>right\<close> and the alignments
  \<open>start\<close>, \<open>end\<close> and none follow the same rule, and under a position \<open>top\<close> or
  \<open>bottom\<close> the alignment \<open>left\<close> gives origin \<open>right\<close> and
  \<open>left = targetLeft - popupWidth - targetMargin\<close>, the alignment \<open>right\<close> gives origin
  \<open>left\<close> and \<open>left = targetLeft + targetWidth + targetMargin\<close>. The margin is 0 for the
  variant \<open>rich\<close> and 4 otherwise.
\<close>

theorem updatePositioner_concrete:
  assumes "pl \<in> set concrete_placements"
  shows "\<exists>originX originY.
     css_transformOrigin (updatePositioner v pl g) = originX @ '' '' @ originY \<and>
     targetMargin v = (if v = ''rich'' then 0 else 4) \<and>
     (position_of pl = Some ''top'' \<longrightarrow>
        originY = ''bottom'' \<and>
        css_top (updatePositioner v pl g) =
          targetTop g - popupHeight g - targetMargin v) \<and>
     (position_of pl = Some ''bottom'' \<longrightarrow>
        originY = ''top'' \<and>
        css_top (updatePositioner v pl g) =
          targetTop g + targetHeight g + targetMargin v) \<and>
     (position_of pl \<noteq> Some ''top'' \<and> position_of pl \<noteq> Some ''bottom'' \<longrightarrow>
        originY = ''center'' \<and>
        (alignment_of pl = Some ''start'' \<longrightarrow>
           css_top (updatePositioner v pl g) = targetTop g) \<and>
        (alignment_of pl = Some ''end'' \<longrightarrow>
           css_top (updatePositioner v pl g) =
             targetTop g + targetHeight g - popupHeight g) \<and>
        (alignment_of pl = None \<longrightarrow>
           css_top (updatePositioner v pl g) =
             targetTop g + targetHeight g / 2 - popupHeight g / 2)) \<and>
     (position_of pl = Some ''left'' \<longrightarrow>
        originX = ''right'' \<and>
        css_left (updatePositioner v pl g) =
          targetLeft g - popupWidth g - targetMargin v) \<and>
     (position_of pl = Some ''right'' \<longrightarrow>
        originX = ''left'' \<and>
        css_left (updatePositioner v pl g) =
          targetLeft g + targetWidth g + targetMargin v) \<and>
     (position_of pl \<noteq> Some ''left'' \<and> position_of pl \<noteq> Some ''right'' \<longrightarrow>
        (alignment_of pl = Some ''start'' \<longrightarrow>
           originX = ''center'' \<and>
           css_left (updatePositioner v pl g) = targetLeft g) \<and>
        (alignment_of pl = Some ''end'' \<longrightarrow>
           originX = ''center'' \<and>
           css_left (updatePositioner v pl g) =
             targetLeft g + targetWidth g - popupWidth g) \<and>
        (alignment_of pl = None \<longrightarrow>
           originX = ''center'' \<and>
           css_left (updatePositioner v pl g) =
             targetLeft g + targetWidth g / 2 - popupWidth g / 2) \<and>
        (alignment_of pl = Some ''left'' \<longrightarrow>
           originX = ''right'' \<and>
           css_left (updatePositioner v pl g) =
             targetLeft g - popupWidth g - targetMargin v) \<and>
        (alignment_of pl = Some ''right'' \<longrightarrow>
           originX = ''left'' \<and>
           css_left (updatePositioner v pl g) =
             targetLeft g + targetWidth g + targetMargin v))"
proof -
  let ?p = "position_of pl" and ?a = "alignment_of pl"
  have r: "resolvePlacement v pl g = pl"
    using assms by (rule resolve_concrete)
  have cases: "?p = Some ''top'' \<or> ?p = Some ''bottom'' \<or> ?p = Some ''left'' \<or> ?p = Some ''right''"
    using assms by (auto simp: concrete_placements_def placement_parts)
  show ?thesis
    apply (rule exI [of _ "fst (horizontalAxis v g ?p ?a)"])
    apply (rule exI [of _ "fst (verticalAxis v g ?p ?a)"])
    using cases
    by (auto simp: updatePositioner_def r Let_def verticalAxis_def horizontalAxis_def
          targetMargin_def isRich_def split: prod.splits)
qed

text \<open>
  The theorem at the placement \<open>left-end\<close> of a plain tooltip: the popup stands to the
  left of the target, its bottom edge level with the target's.
\<close>

theorem updatePositioner_concrete_witness:
  "''left-end'' \<in> set concrete_placements \<and>
   position_of ''left-end'' = Some ''left'' \<and> alignment_of ''left-end'' = Some ''end'' \<and>
   css_transformOrigin (updatePositioner ''plain'' ''left-end'' corner_layout) = ''right center'' \<and>
   css_top (updatePositioner ''plain'' ''left-end'' corner_layout) = 660 \<and>
   css_left (updatePositioner ''plain'' ''left-end'' corner_layout) = 696"
proof -
  have m: "''left-end'' \<in> set concrete_placements"
    by (simp add: concrete_placements_def)
  from updatePositioner_concrete [OF m, of "''plain''" corner_layout]
  obtain originX originY where
    o: "css_transformOrigin (updatePositioner ''plain'' ''left-end'' corner_layout) =
          originX @ '' '' @ originY"
    and x: "originX = ''right''"
    and l: "css_left (updatePositioner ''plain'' ''left-end'' corner_layout) =
          targetLeft corner_layout - popupWidth corner_layout - targetMargin ''plain''"
    and y: "originY = ''center''"
    and t: "css_top (updatePositioner ''plain'' ''left-end'' corner_layout) =
          targetTop corner_layout + targetHeight corner_layout - popupHeight corner_layout"
    by (auto simp: placement_parts)
  show ?thesis
    using m o x l y t
    by (simp add: placement_parts corner_layout_def targetMargin_def isRich_def)
qed

text \<open>
  C1 as stated fails at a corner placement. For \<open>top-left\<close> the position is \<open>top\<close>,
  neither \<open>left\<close> nor \<open>right\<close>, and the alignment is neither \<open>start\<close> nor \<open>end\<close>; the
  rule of the vertical axis, mirrored, gives the origin \<open>center\<close> and a centred popup.
  \<open>updatePositioner\<close> gives the origin \<open>right\<close> and puts the popup to the left of the
  target.
\<close>

theorem updatePositioner_corner_counterexample:
  "''top-left'' \<in> set concrete_placements \<and>
   position_of ''top-left'' = Some ''top'' \<and>
   alignment_of ''top-left'' = Some ''left'' \<and>
   css_transformOrigin (updatePositioner ''plain'' ''top-left'' corner_layout) = ''right bottom'' \<and>
   css_transformOrigin (updatePositioner ''plain'' ''top-left'' corner_layout) \<noteq> ''center bottom'' \<and>
   css_left (updatePositioner ''plain'' ''top-left'' corner_layout) = 696 \<and>
   css_left (updatePositioner ''plain'' ''top-left'' corner_layout) \<noteq>
     targetLeft corner_layout + targetWidth corner_layout / 2 - popupWidth corner_layout / 2"
  by (simp add: concrete_placements_def placement_parts updatePositioner_def
        resolvePlacement_def verticalAxis_def horizontalAxis_def targetMargin_def isRich_def
        corner_layout_def)

text \<open>
  C2. With the placement \<open>auto\<close>, the four flags compare the space above, below, left
  and right of the target with the popup's height or width plus the two margins, and the
  placement is the first of the priority list whose flags hold: bottom-right,
  bottom-left, top-right, top-left, bottom, top, right, left for the variant \<open>rich\<close>,
  with \<open>bottom-right\<close> when none holds; top, bottom, left, right otherwise, with \<open>top\<close>
  when none holds. The result is one of the documented placements and never \<open>auto\<close>,
  and the popup is positioned as for that pl.
\<close>

theorem auto_placement_priority:
  "hasTopSpace v g = (targetTop g > popupHeight g + targetMargin v + 4) \<and>
   hasBottomSpace v g =
     (windowHeight g - targetTop g - targetHeight g > popupHeight g + targetMargin v + 4) \<and>
   hasLeftSpace v g = (targetLeft g > popupWidth g + targetMargin v + 4) \<and>
   hasRightSpace v g =
     (windowWidth g - targetLeft g - targetWidth g > popupWidth g + targetMargin v + 4) \<and>
   resolvePlacement v ''auto'' g =
     (if v = ''rich'' then
        first_match
          [(hasBottomSpace v g \<and> hasRightSpace v g, ''bottom-right''),
           (hasBottomSpace v g \<and> hasLeftSpace v g, ''bottom-left''),
           (hasTopSpace v g \<and> hasRightSpace v g, ''top-right''),
           (hasTopSpace v g \<and> hasLeftSpace v g, ''top-left''),
           (hasBottomSpace v g, ''bottom''),
           (hasTopSpace v g, ''top''),
           (hasRightSpace v g, ''right''),
           (hasLeftSpace v g, ''left'')]
          ''bottom-right''
      else
        first_match
          [(hasTopSpace v g, ''top''),
           (hasBottomSpace v g, ''bottom''),
           (hasLeftSpace v g, ''left''),
           (hasRightSpace v g, ''right'')]
          ''top'') \<and>
   resolvePlacement v ''auto'' g \<in> set concrete_placements \<and>
   resolvePlacement v ''auto'' g \<noteq> ''auto'' \<and>
   updatePositioner v ''auto'' g =
     updatePositioner v (resolvePlacement v ''auto'' g) g"
proof -
  have flags:
    "hasTopSpace v g = (targetTop g > popupHeight g + targetMargin v + 4)"
    "hasBottomSpace v g =
       (windowHeight g - targetTop g - targetHeight g > popupHeight g + targetMargin v + 4)"
    "hasLeftSpace v g = (targetLeft g > popupWidth g + targetMargin v + 4)"
    "hasRightSpace v g =
       (windowWidth g - targetLeft g - targetWidth g > popupWidth g + targetMargin v + 4)"
    by (simp_all add: hasTopSpace_def hasBottomSpace_def hasLeftSpace_def hasRightSpace_def
          popupXSpace_def popupYSpace_def popupMargin_def)
  have order: "resolvePlacement v ''auto'' g =
     (if v = ''rich'' then
        first_match
          [(hasBottomSpace v g \<and> hasRightSpace v g, ''bottom-right''),
           (hasBottomSpace v g \<and> hasLeftSpace v g, ''bottom-left''),
           (hasTopSpace v g \<and> hasRightSpace v g, ''top-right''),
           (hasTopSpace v g \<and> hasLeftSpace v g, ''top-left''),
           (hasBottomSpace v g, ''bottom''),
           (hasTopSpace v g, ''top''),
           (hasRightSpace v g, ''right''),
           (hasLeftSpace v g, ''left'')]
          ''bottom-right''
      else
        first_match
          [(hasTopSpace v g, ''top''),
           (hasBottomSpace v g, ''bottom''),
           (hasLeftSpace v g, ''left''),
           (hasRightSpace v g, ''right'')]
          ''top'')"
    by (simp add: resolvePlacement_def isRich_def)
  have conc: "resolvePlacement v ''auto'' g \<in> set concrete_placements"
    by (rule resolve_auto_concrete)
  have not_auto: "resolvePlacement v ''auto'' g \<noteq> ''auto''"
    using conc by (auto simp: concrete_placements_def)
  have same: "updatePositioner v ''auto'' g =
     updatePositioner v (resolvePlacement v ''auto'' g) g"
    by (simp add: updatePositioner_def resolve_concrete [OF conc])
  show ?thesis
    using flags order conc not_auto same by blast
qed

text \<open>
  The theorem where no flag holds: a target in the middle of a window of 100 by 100 and a
  popup of 200 by 100. The rich tooltip falls back to \<open>bottom-right\<close>, the plain one to
  \<open>top\<close>.
\<close>

theorem auto_placement_priority_witness:
  "\<not> hasTopSpace ''rich'' cramped_layout \<and> \<not> hasBottomSpace ''rich'' cramped_layout \<and>
   \<not> hasLeftSpace ''rich'' cramped_layout \<and> \<not> hasRightSpace ''rich'' cramped_layout \<and>
   resolvePlacement ''rich'' ''auto'' cramped_layout = ''bottom-right'' \<and>
   resolvePlacement ''plain'' ''auto'' cramped_layout = ''top''"
proof -
  have rich: "\<not> hasTopSpace ''rich'' cramped_layout" "\<not> hasBottomSpace ''rich'' cramped_layout"
    "\<not> hasLeftSpace ''rich'' cramped_layout" "\<not> hasRightSpace ''rich'' cramped_layout"
    using auto_placement_priority [of "''rich''" cramped_layout]
    by (simp_all add: cramped_layout_def targetMargin_def isRich_def)
  have plain: "\<not> hasTopSpace ''plain'' cramped_layout" "\<not> hasBottomSpace ''plain'' cramped_layout"
    "\<not> hasLeftSpace ''plain'' cramped_layout" "\<not> hasRightSpace ''plain'' cramped_layout"
    using auto_placement_priority [of "''plain''" cramped_layout]
    by (simp_all add: cramped_layout_def targetMargin_def isRich_def)
  have r: "resolvePlacement ''rich'' ''auto'' cramped_layout = ''bottom-right''"
    using auto_placement_priority [of "''rich''" cramped_layout] by (simp add: rich)
  have p: "resolvePlacement ''plain'' ''auto'' cramped_layout = ''top''"
    using auto_placement_priority [of "''plain''" cramped_layout] by (simp add: plain)
  show ?thesis
    using rich r p by simp
qed

text \<open>
  C3. A rich tooltip with the placement \<open>auto\<close> in a window of 1000 by 800, whose target
  leaves no room below nor to the right while there is room above and to the left, is
  placed \<open>top-left\<close>.
\<close>

theorem auto_rich_bottom_right_corner:
  assumes "windowWidth g = 1000" and "windowHeight g = 800"
    and "\<not> hasBottomSpace ''rich'' g" and "\<not> hasRightSpace ''rich'' g"
    and "hasTopSpace ''rich'' g" and "hasLeftSpace ''rich'' g"
  shows "resolvePlacement ''rich'' ''auto'' g = ''top-left''"
  using assms by (simp add: resolvePlacement_def isRich_def)

theorem auto_rich_bottom_right_corner_witness:
  "windowWidth corner_layout = 1000 \<and> windowHeight corner_layout = 800 \<and>
   \<not> hasBottomSpace ''rich'' corner_layout \<and> \<not> hasRightSpace ''rich'' corner_layout \<and>
   hasTopSpace ''rich'' corner_layout \<and> hasLeftSpace ''rich'' corner_layout \<and>
   resolvePlacement ''rich'' ''auto'' corner_layout = ''top-left'' \<and>
   css_transformOrigin (updatePositioner ''rich'' ''auto'' corner_layout) = ''right bottom'' \<and>
   css_top (updatePositioner ''rich'' ''auto'' corner_layout) = 600 \<and>
   css_left (updatePositioner ''rich'' ''auto'' corner_layout) = 700"
proof -
  have w: "windowWidth corner_layout = 1000" and h: "windowHeight corner_layout = 800"
    by (simp_all add: corner_layout_def)
  have b: "\<not> hasBottomSpace ''rich'' corner_layout"
    and r: "\<not> hasRightSpace ''rich'' corner_layout"
    and t: "hasTopSpace ''rich'' corner_layout"
    and l: "hasLeftSpace ''rich'' corner_layout"
    by (simp_all add: hasBottomSpace_def hasRightSpace_def hasTopSpace_def hasLeftSpace_def
          popupXSpace_def popupYSpace_def popupMargin_def targetMargin_def isRich_def
          corner_layout_def)
  have p: "resolvePlacement ''rich'' ''auto'' corner_layout = ''top-left''"
    by (rule auto_rich_bottom_right_corner [OF w h b r t l])
  have css: "updatePositioner ''rich'' ''auto'' corner_layout =
      \<lparr> css_top = 600, css_left = 700, css_transformOrigin = ''right bottom'' \<rparr>"
    unfolding updatePositioner_def p
    by (simp add: placement_parts verticalAxis_def horizontalAxis_def
          targetMargin_def isRich_def corner_layout_def)
  show ?thesis
    using w h b r t l p by (simp add: css)
qed

section \<open>Properties of the triggers\<close>

lemma hover_only [simp]:
  "trigger s = ''hover'' \<Longrightarrow> hasTrigger s ''hover''"
  "trigger s = ''hover'' \<Longrightarrow> \<not> hasTrigger s ''focus''"
  "trigger s = ''hover'' \<Longrightarrow> \<not> hasTrigger s ''click''"
  by (simp_all add: hasTrigger_def)

lemma clearTimeout_fields [simp]:
  "open_flag (clearTimeout slot s) = open_flag s"
  "trigger (clearTimeout slot s) = trigger s"
  "disabled (clearTimeout slot s) = disabled s"
  "openDelay (clearTimeout slot s) = openDelay s"
  "closeDelay (clearTimeout slot s) = closeDelay s"
  "isHover (clearTimeout slot s) = isHover s"
  "mouseLeaveItems (clearTimeout slot s) = mouseLeaveItems s"
  "hoverTimeout (clearTimeout slot s) = hoverTimeout s"
  "now (clearTimeout slot s) = now s"
  "nextHandle (clearTimeout slot s) = nextHandle s"
  by (simp_all add: clearTimeout_def split: option.splits)

lemma clearTimeout_timers:
  "timers (clearTimeout slot s) = filter (\<lambda>t. Some (timer_id t) \<noteq> slot) (timers s)"
  by (simp add: clearTimeout_def split: option.splits)

lemma hasTrigger_clearTimeout [simp]:
  "hasTrigger (clearTimeout slot s) tr = hasTrigger s tr"
  by (simp add: hasTrigger_def)

lemma mouse_leave_closed:
  "disabled s \<or> \<not> open_flag s \<or> \<not> hasTrigger s ''hover'' \<Longrightarrow>
   onMouseLeave s = clearTimeout (hoverTimeout s) s"
  by (auto simp: onMouseLeave_def Let_def)

lemma step_calm:
  assumes "calm (elapsed [e] + k) s" and "e \<noteq> MouseEnter"
  shows "calm k (step e s)"
proof (cases e)
  case MouseEnter
  with assms show ?thesis by simp
next
  case MouseLeave
  with assms show ?thesis
    by (auto simp: calm_def mouse_leave_closed clearTimeout_timers)
next
  case (Fire h)
  with assms show ?thesis
    by (auto simp: calm_def fire_def split: if_splits)
next
  case (Tick dt)
  with assms show ?thesis
    by (auto simp: calm_def tick_def)
next
  case PopupLeave
  with assms show ?thesis
    by (auto simp: calm_def popupLeave_def)
qed (use assms in \<open>auto simp: calm_def onFocus_def onBlur_def onClick_def onKeydown_def
       onDocumentClick_def popupEnter_def\<close>)

lemma run_calm:
  "calm (elapsed es + k) s \<Longrightarrow> MouseEnter \<notin> set es \<Longrightarrow> calm k (run es s)"
proof (induction es arbitrary: s)
  case Nil
  then show ?case by (simp add: run_def)
next
  case (Cons e es)
  have "elapsed (e # es) = elapsed [e] + elapsed es"
    by (cases e) simp_all
  with Cons.prems have "calm (elapsed [e] + (elapsed es + k)) s"
    by (simp add: add.assoc)
  moreover from Cons.prems have "e \<noteq> MouseEnter" by auto
  ultimately have "calm (elapsed es + k) (step e s)"
    by (rule step_calm)
  moreover from Cons.prems have "MouseEnter \<notin> set es" by simp
  ultimately have "calm k (run es (step e s))"
    by (rule Cons.IH)
  then show ?case by (simp add: run_def)
qed

lemma run_append: "run (es @ es') s = run es' (run es s)"
  by (simp add: run_def)

lemma run_Cons: "run (e # es) s = run es (step e s)"
  by (simp add: run_def)

lemma mouse_leave_calm:
  "calm 0 s \<Longrightarrow> calm k (onMouseLeave s) \<and> timers (onMouseLeave s) = []"
  by (auto simp: calm_def mouse_leave_closed clearTimeout_timers)

lemma mouse_enter_arms:
  assumes "trigger s = ''hover''" and "\<not> disabled s" and "\<not> open_flag s"
    and "openDelay s = Num d" and "0 < d"
    and "list_all (\<lambda>t. hoverTimeout s = Some (timer_id t)) (timers s)"
  shows "timers (onMouseEnter s) =
           [\<lparr> timer_id = nextHandle s, started = now s, delay = d, action = OpenTrue \<rparr>]"
    and "hoverTimeout (onMouseEnter s) = Some (nextHandle s)"
    and "open_flag (onMouseEnter s) = False"
    and "trigger (onMouseEnter s) = ''hover''"
    and "mouseLeaveItems (onMouseEnter s) = mouseLeaveItems s"
    and "now (onMouseEnter s) = now s"
proof -
  have "filter (\<lambda>t. timer_id t \<noteq> h) (timers s) = []" if "hoverTimeout s = Some h" for h
    using assms(6) that by (auto simp: list_all_iff filter_empty_conv)
  moreover have "timers s = []" if "hoverTimeout s = None"
    using assms(6) that by (cases "timers s") auto
  ultimately have cleared: "timers (clearTimeout (hoverTimeout s) s) = []"
    by (cases "hoverTimeout s") (simp_all add: clearTimeout_def)
  show "timers (onMouseEnter s) =
           [\<lparr> timer_id = nextHandle s, started = now s, delay = d, action = OpenTrue \<rparr>]"
    using assms cleared
    by (cases "hoverTimeout s") (simp_all add: onMouseEnter_def setTimeout_def clearTimeout_def)
  show "hoverTimeout (onMouseEnter s) = Some (nextHandle s)"
    using assms
    by (cases "hoverTimeout s") (simp_all add: onMouseEnter_def setTimeout_def clearTimeout_def)
  show "open_flag (onMouseEnter s) = False"
    using assms
    by (cases "hoverTimeout s") (simp_all add: onMouseEnter_def setTimeout_def clearTimeout_def)
  show "trigger (onMouseEnter s) = ''hover''"
    using assms
    by (cases "hoverTimeout s") (simp_all add: onMouseEnter_def setTimeout_def clearTimeout_def)
  show "mouseLeaveItems (onMouseEnter s) = mouseLeaveItems s"
    using assms
    by (cases "hoverTimeout s") (simp_all add: onMouseEnter_def setTimeout_def clearTimeout_def)
  show "now (onMouseEnter s) = now s"
    using assms
    by (cases "hoverTimeout s") (simp_all add: onMouseEnter_def setTimeout_def clearTimeout_def)
qed

text \<open>
  From an idle state the mouseleave does cancel the opening. Take a closed tooltip with
  the trigger \<open>hover\<close> and a positive \<open>openDelay\<close> of \<open>d\<close> milliseconds, not
  disabled, with no callback waiting on the popup and no pending timer but the one its
  slot holds. After a mouseenter the slot holds a pending timer that
  opens. Let any events but a further mouseenter follow, taking less than \<open>d\<close>
  milliseconds in all (focus, blur, pointer-down, keys, clicks on the document, the
  pointer entering and leaving the popup, the passing of time, and the window running
  the timers that are due): the tooltip is still closed. The mouseleave then leaves no
  timer pending, and whatever events but a mouseenter follow it, for however long, the
  tooltip stays closed.
\<close>

theorem hover_leave_before_delay_never_opens:
  assumes "trigger s = ''hover''" and "\<not> disabled s" and "\<not> open_flag s"
    and "openDelay s = Num d" and "0 < d"
    and "mouseLeaveItems s = 0"
    and "list_all (\<lambda>t. hoverTimeout s = Some (timer_id t)) (timers s)"
    and "MouseEnter \<notin> set es1" and "int (elapsed es1) < d"
    and "MouseEnter \<notin> set es2"
  shows "timers (run [MouseEnter] s) =
           [\<lparr> timer_id = nextHandle s, started = now s, delay = d, action = OpenTrue \<rparr>] \<and>
         \<not> open_flag (run (MouseEnter # es1) s) \<and>
         timers (run (MouseEnter # es1 @ [MouseLeave]) s) = [] \<and>
         \<not> open_flag (run (MouseEnter # es1 @ MouseLeave # es2) s)"
proof -
  let ?s1 = "onMouseEnter s"
  note arm = mouse_enter_arms [OF assms(1-5) assms(7)]
  have "now s + elapsed es1 < now s + nat d"
    using assms(9) by linarith
  then have "calm (elapsed es1 + 0) ?s1"
    using arm assms(6) by (simp add: calm_def due_def)
  then have window: "calm 0 (run es1 ?s1)"
    using assms(8) by (rule run_calm)
  then have leave: "calm (elapsed es2 + 0) (onMouseLeave (run es1 ?s1))"
    and none: "timers (onMouseLeave (run es1 ?s1)) = []"
    using mouse_leave_calm by blast+
  from leave assms(10) have after: "calm 0 (run es2 (onMouseLeave (run es1 ?s1)))"
    by (rule run_calm)
  have "timers (run [MouseEnter] s) =
           [\<lparr> timer_id = nextHandle s, started = now s, delay = d, action = OpenTrue \<rparr>]"
    using arm(1) by (simp add: run_def)
  moreover have "\<not> open_flag (run (MouseEnter # es1) s)"
    using window by (simp add: run_Cons calm_def)
  moreover have "timers (run (MouseEnter # es1 @ [MouseLeave]) s) = []"
    using none by (simp add: run_def)
  moreover have "\<not> open_flag (run (MouseEnter # es1 @ MouseLeave # es2) s)"
    using after by (simp add: run_Cons run_append calm_def)
  ultimately show ?thesis by blast
qed

text \<open>
  So it is on a tooltip as constructed, with the trigger \<open>hover\<close> and the delay of 150
  milliseconds: the pointer enters, 100 milliseconds pass, the pointer leaves, and a
  second goes by.
\<close>

theorem hover_leave_before_delay_never_opens_witness:
  "trigger hover_closed = ''hover'' \<and> \<not> disabled hover_closed \<and> \<not> open_flag hover_closed \<and>
   openDelay hover_closed = Num 150 \<and>
   elapsed [Tick 100, Fire 1, PopupEnter, PopupLeave] = 100 \<and>
   timers (run [MouseEnter] hover_closed) =
     [\<lparr> timer_id = 1, started = 0, delay = 150, action = OpenTrue \<rparr>] \<and>
   \<not> open_flag (run [MouseEnter, Tick 100, Fire 1, PopupEnter, PopupLeave] hover_closed) \<and>
   timers (run [MouseEnter, Tick 100, Fire 1, PopupEnter, PopupLeave, MouseLeave] hover_closed) = [] \<and>
   \<not> open_flag (run [MouseEnter, Tick 100, Fire 1, PopupEnter, PopupLeave, MouseLeave,
                      Tick 1000, Fire 1, Focus] hover_closed)"
proof -
  have h: "trigger hover_closed = ''hover''" "\<not> disabled hover_closed"
    "\<not> open_flag hover_closed" "openDelay hover_closed = Num 150" "(0::int) < 150"
    "mouseLeaveItems hover_closed = 0"
    "list_all (\<lambda>t. hoverTimeout hover_closed = Some (timer_id t)) (timers hover_closed)"
    by (simp_all add: hover_closed_def initial_def)
  have e: "MouseEnter \<notin> set [Tick 100, Fire 1, PopupEnter, PopupLeave]"
    "int (elapsed [Tick 100, Fire 1, PopupEnter, PopupLeave]) < 150"
    "MouseEnter \<notin> set [Tick 1000, Fire 1, Focus]"
    by simp_all
  have n: "nextHandle hover_closed = 1" "now hover_closed = 0"
    by (simp_all add: hover_closed_def initial_def)
  show ?thesis
    using hover_leave_before_delay_never_opens [OF h e] h(1-4) by (simp add: n)
qed

text \<open>Without the mouseleave the timer runs when the delay has passed, and opens.\<close>

lemma hover_opens_after_delay:
  "\<not> open_flag (run [MouseEnter, Tick 149, Fire 1] hover_closed) \<and>
   open_flag (run [MouseEnter, Tick 150, Fire 1] hover_closed)"
  by (simp add: run_def hover_closed_def initial_def onMouseEnter_def hasTrigger_def
        clearTimeout_def setTimeout_def tick_def fire_def due_def)


subsection \<open>The timer slot\<close>

lemma setTimeout_fields [simp]:
  "fst (setTimeout cb d s) = nextHandle s"
  "open_flag (snd (setTimeout cb d s)) = open_flag s"
  "trigger (snd (setTimeout cb d s)) = trigger s"
  "disabled (snd (setTimeout cb d s)) = disabled s"
  "isHover (snd (setTimeout cb d s)) = isHover s"
  "mouseLeaveItems (snd (setTimeout cb d s)) = mouseLeaveItems s"
  "now (snd (setTimeout cb d s)) = now s"
  "nextHandle (snd (setTimeout cb d s)) = Suc (nextHandle s)"
  "timers (snd (setTimeout cb d s)) =
     timers s @ [\<lparr> timer_id = nextHandle s, started = now s, delay = d, action = cb \<rparr>]"
  by (simp_all add: setTimeout_def)

lemma or_else_50:
  "or_else d 50 = (case d of Num n \<Rightarrow> if n = 0 then 50 else n | NaN \<Rightarrow> 50)"
  by (cases d) simp_all

lemma mouse_enter_timer:
  assumes "\<not> disabled s" and "\<not> open_flag s" and "hasTrigger s ''hover''"
    and "openDelay s = Num d" and "d \<noteq> 0"
  shows "hoverTimeout (onMouseEnter s) = Some (nextHandle s)"
    and "timers (onMouseEnter s) =
           filter (\<lambda>t. Some (timer_id t) \<noteq> hoverTimeout s) (timers s) @
           [\<lparr> timer_id = nextHandle s, started = now s, delay = d, action = OpenTrue \<rparr>]"
  using assms
  by (simp_all add: onMouseEnter_def split_beta clearTimeout_timers)

lemma mouse_leave_timer:
  assumes "\<not> disabled s" and "open_flag s" and "hasTrigger s ''hover''"
  shows "hoverTimeout (onMouseLeave s) = Some (nextHandle s)"
    and "timers (onMouseLeave s) =
           filter (\<lambda>t. Some (timer_id t) \<noteq> hoverTimeout s) (timers s) @
           [\<lparr> timer_id = nextHandle s, started = now s,
              delay = (case closeDelay s of Num n \<Rightarrow> if n = 0 then 50 else n | NaN \<Rightarrow> 50),
              action = RequestClose \<rparr>]"
    and "open_flag (onMouseLeave s)"
    and "now (onMouseLeave s) = now s"
    and "isHover (onMouseLeave s) = isHover s"
  using assms
  by (simp_all add: onMouseLeave_def Let_def split_beta clearTimeout_timers or_else_50)

lemma after_popup_leave_timer:
  assumes "hasTrigger s ''hover''"
  shows "hoverTimeout (afterPopupLeave s) = Some (nextHandle s)"
    and "timers (afterPopupLeave s) =
           timers s @
           [\<lparr> timer_id = nextHandle s, started = now s,
              delay = (case closeDelay s of Num n \<Rightarrow> if n = 0 then 50 else n | NaN \<Rightarrow> 50),
              action = OpenFalse \<rparr>]"
    and "open_flag (afterPopupLeave s) = open_flag s"
  using assms
  by (simp_all add: afterPopupLeave_def split_beta or_else_50)

lemma slot_holds_all_cleared:
  "slot_holds_all s \<Longrightarrow> filter (\<lambda>t. Some (timer_id t) \<noteq> hoverTimeout s) (timers s) = []"
  by (auto simp: slot_holds_all_def list_all_iff filter_empty_conv)

lemma slot_holds_all_mouse_enter:
  assumes "slot_holds_all s"
  shows "slot_holds_all (onMouseEnter s)"
proof (cases "disabled s \<or> open_flag s \<or> \<not> hasTrigger s ''hover''")
  case True
  then show ?thesis using assms by (auto simp: onMouseEnter_def)
next
  case False
  show ?thesis
  proof (cases "openDelay s")
    case NaN
    with False assms show ?thesis
      by (simp add: onMouseEnter_def slot_holds_all_def)
  next
    case (Num d)
    show ?thesis
    proof (cases "d = 0")
      case True
      with Num False assms show ?thesis
        by (simp add: onMouseEnter_def slot_holds_all_def)
    next
      case nz: False
      from False Num nz mouse_enter_timer [of s d] slot_holds_all_cleared [OF assms]
      show ?thesis by (simp add: slot_holds_all_def)
    qed
  qed
qed

lemma slot_holds_all_mouse_leave:
  assumes "slot_holds_all s"
  shows "slot_holds_all (onMouseLeave s)"
proof (cases "disabled s \<or> \<not> open_flag s \<or> \<not> hasTrigger s ''hover''")
  case True
  then have "onMouseLeave s = clearTimeout (hoverTimeout s) s"
    by (rule mouse_leave_closed)
  then show ?thesis
    using slot_holds_all_cleared [OF assms] by (simp add: slot_holds_all_def clearTimeout_timers)
next
  case False
  with mouse_leave_timer [of s] slot_holds_all_cleared [OF assms]
  show ?thesis by (simp add: slot_holds_all_def)
qed

text \<open>
  C4, as amended. The tooltip has one timer slot, \<open>hoverTimeout\<close>, for the timer that
  opens and for the timer that closes. When \<open>onMouseEnter\<close> schedules the opening (the
  tooltip is closed and not disabled, \<open>hover\<close> is a trigger and \<open>openDelay\<close> is not zero)
  it first clears the timer the slot holds, and stores the new timer in the slot.
  \<open>onMouseLeave\<close> always clears the timer the slot holds, and when it schedules the
  request to close it stores the new timer in the slot. So each of the two cancels what
  the other has scheduled, and if the pending timers are at most the one in the slot
  before one of these handlers, they are so after it.
\<close>

theorem hover_timeout_shared_slot:
  "(\<not> disabled s \<and> \<not> open_flag s \<and> hasTrigger s ''hover'' \<and> openDelay s = Num d \<and> d \<noteq> 0 \<longrightarrow>
      hoverTimeout (onMouseEnter s) = Some (nextHandle s) \<and>
      timers (onMouseEnter s) =
        filter (\<lambda>t. Some (timer_id t) \<noteq> hoverTimeout s) (timers s) @
        [\<lparr> timer_id = nextHandle s, started = now s, delay = d, action = OpenTrue \<rparr>]) \<and>
   (\<not> disabled s \<and> open_flag s \<and> hasTrigger s ''hover'' \<longrightarrow>
      hoverTimeout (onMouseLeave s) = Some (nextHandle s) \<and>
      timers (onMouseLeave s) =
        filter (\<lambda>t. Some (timer_id t) \<noteq> hoverTimeout s) (timers s) @
        [\<lparr> timer_id = nextHandle s, started = now s,
           delay = (case closeDelay s of Num n \<Rightarrow> if n = 0 then 50 else n | NaN \<Rightarrow> 50),
           action = RequestClose \<rparr>]) \<and>
   (disabled s \<or> \<not> open_flag s \<or> \<not> hasTrigger s ''hover'' \<longrightarrow>
      hoverTimeout (onMouseLeave s) = hoverTimeout s \<and>
      timers (onMouseLeave s) =
        filter (\<lambda>t. Some (timer_id t) \<noteq> hoverTimeout s) (timers s)) \<and>
   (slot_holds_all s \<longrightarrow> slot_holds_all (onMouseEnter s) \<and> slot_holds_all (onMouseLeave s))"
  using mouse_enter_timer [of s d] mouse_leave_timer(1,2) [of s] mouse_leave_closed [of s]
    slot_holds_all_mouse_enter [of s] slot_holds_all_mouse_leave [of s]
  by (auto simp: clearTimeout_timers)

text \<open>
  The theorem on a tooltip that the pointer has just left (the slot holds the timer that
  closes) and that was then closed by a pointer-down outside: the mouseenter replaces
  the timer in the slot.
\<close>

theorem hover_timeout_shared_slot_witness:
  "slot_holds_all left_and_closed \<and>
   hoverTimeout left_and_closed = Some 1 \<and>
   timers left_and_closed = [\<lparr> timer_id = 1, started = 0, delay = 150, action = RequestClose \<rparr>] \<and>
   hoverTimeout (onMouseEnter left_and_closed) = Some 2 \<and>
   timers (onMouseEnter left_and_closed) =
     [\<lparr> timer_id = 2, started = 0, delay = 150, action = OpenTrue \<rparr>] \<and>
   slot_holds_all (onMouseEnter left_and_closed) \<and>
   timers (onMouseLeave left_and_closed) = [] \<and>
   timers (onMouseLeave hover_open) =
     [\<lparr> timer_id = 1, started = 0, delay = 150, action = RequestClose \<rparr>]"
proof -
  have s: "left_and_closed =
      hover_open\<lparr> open_flag := False, hoverTimeout := Some 1, nextHandle := 2,
        timers := [\<lparr> timer_id = 1, started = 0, delay = 150, action = RequestClose \<rparr>] \<rparr>"
    by (simp add: left_and_closed_def run_def hover_open_def hover_closed_def initial_def
          onMouseLeave_def onDocumentClick_def requestClose_def hasTrigger_def
          clearTimeout_def setTimeout_def)
  have h: "\<not> disabled left_and_closed" "\<not> open_flag left_and_closed"
    "hasTrigger left_and_closed ''hover''" "openDelay left_and_closed = Num 150"
    "slot_holds_all left_and_closed"
    by (simp_all add: s hover_open_def initial_def hasTrigger_def slot_holds_all_def)
  have o: "\<not> disabled hover_open" "open_flag hover_open" "hasTrigger hover_open ''hover''"
    by (simp_all add: hover_open_def initial_def hasTrigger_def)
  from hover_timeout_shared_slot [of left_and_closed 150] h
  have 1: "hoverTimeout (onMouseEnter left_and_closed) = Some (nextHandle left_and_closed)"
    "timers (onMouseEnter left_and_closed) =
        filter (\<lambda>t. Some (timer_id t) \<noteq> hoverTimeout left_and_closed) (timers left_and_closed) @
        [\<lparr> timer_id = nextHandle left_and_closed, started = now left_and_closed,
           delay = 150, action = OpenTrue \<rparr>]"
    "timers (onMouseLeave left_and_closed) =
        filter (\<lambda>t. Some (timer_id t) \<noteq> hoverTimeout left_and_closed) (timers left_and_closed)"
    "slot_holds_all (onMouseEnter left_and_closed)"
    by simp_all
  from hover_timeout_shared_slot [of hover_open 0] o
  have 2: "timers (onMouseLeave hover_open) =
        filter (\<lambda>t. Some (timer_id t) \<noteq> hoverTimeout hover_open) (timers hover_open) @
        [\<lparr> timer_id = nextHandle hover_open, started = now hover_open,
           delay = (case closeDelay hover_open of
                      Num n \<Rightarrow> if n = 0 then 50 else n | NaN \<Rightarrow> 50),
           action = RequestClose \<rparr>]"
    by simp
  have v: "hoverTimeout left_and_closed = Some 1" "nextHandle left_and_closed = 2"
    "now left_and_closed = 0"
    "timers left_and_closed = [\<lparr> timer_id = 1, started = 0, delay = 150, action = RequestClose \<rparr>]"
    by (simp_all add: s hover_open_def initial_def)
  have w: "hoverTimeout hover_open = None" "nextHandle hover_open = 1" "now hover_open = 0"
    "timers hover_open = []" "closeDelay hover_open = Num 150"
    by (simp_all add: hover_open_def initial_def)
  show ?thesis
    using h(5) 1 2 by (simp add: v w)
qed

text \<open>
  C4 as stated fails. The timer that opens and the timer that closes are kept in the
  same slot: a mouseleave on an open tooltip stores the timer that closes in
  \<open>hoverTimeout\<close>; after a pointer-down outside has closed the tooltip, a mouseenter
  cancels that timer, pending still, and stores the timer that opens in the same slot.
  And the third place that starts a timer, the deferred close of \<open>requestClose\<close>, clears
  nothing: when the pointer leaves the target, goes over the popup, Escape is pressed
  and the pointer leaves the popup, two timers that close are pending, the slot holding
  the second.
\<close>

theorem hover_timeout_counterexample:
  "hoverTimeout (run [MouseLeave] hover_open) = Some 1 \<and>
   timers (run [MouseLeave] hover_open) =
     [\<lparr> timer_id = 1, started = 0, delay = 150, action = RequestClose \<rparr>] \<and>
   timers (run [MouseLeave, DocumentPointerDown False] hover_open) =
     [\<lparr> timer_id = 1, started = 0, delay = 150, action = RequestClose \<rparr>] \<and>
   hoverTimeout (run [MouseLeave, DocumentPointerDown False, MouseEnter] hover_open) = Some 2 \<and>
   timers (run [MouseLeave, DocumentPointerDown False, MouseEnter] hover_open) =
     [\<lparr> timer_id = 2, started = 0, delay = 150, action = OpenTrue \<rparr>] \<and>
   hoverTimeout (run [MouseLeave, PopupEnter, Keydown ''Escape'', PopupLeave] hover_open) = Some 2 \<and>
   timers (run [MouseLeave, PopupEnter, Keydown ''Escape'', PopupLeave] hover_open) =
     [\<lparr> timer_id = 1, started = 0, delay = 150, action = RequestClose \<rparr>,
      \<lparr> timer_id = 2, started = 0, delay = 150, action = OpenFalse \<rparr>]"
  by (intro conjI)
    (simp_all add: run_def hover_open_def initial_def onMouseLeave_def onMouseEnter_def
       onDocumentClick_def onKeydown_def requestClose_def popupEnter_def popupLeave_def
       afterPopupLeave_def hasTrigger_def clearTimeout_def setTimeout_def)

subsection \<open>The delay of the close\<close>

lemma find_last:
  "find P xs = None \<Longrightarrow> find P (xs @ [t]) = (if P t then Some t else None)"
  by (induction xs) (auto split: if_splits)

lemma fire_last:
  assumes "timers s = xs @ [t]" and "timer_id t = h"
    and "list_all (\<lambda>u. timer_id u \<noteq> h) xs"
  shows "fire h s =
           (if due t \<le> now s then run_callback (action t) (s\<lparr> timers := xs \<rparr>) else s)"
proof -
  have "find (\<lambda>u. timer_id u = h) xs = None"
    using assms(3) by (auto simp: find_None_iff list_all_iff)
  then have "find (\<lambda>u. timer_id u = h) (timers s) = Some t"
    using assms(1,2) by (simp add: find_last)
  moreover have "filter (\<lambda>u. timer_id u \<noteq> h) (timers s) = xs"
    using assms by (simp add: list_all_iff)
  ultimately show ?thesis
    by (simp add: fire_def)
qed

lemma tick_fields [simp]:
  "timers (tick dt s) = timers s"
  "now (tick dt s) = now s + dt"
  "open_flag (tick dt s) = open_flag s"
  "isHover (tick dt s) = isHover s"
  by (simp_all add: tick_def)

lemma fresh_not_cleared:
  "list_all (\<lambda>t. timer_id t < h) xs \<Longrightarrow>
   list_all (\<lambda>u. timer_id u \<noteq> h) (filter P xs)"
  by (auto simp: list_all_iff)

text \<open>
  C9. On a mouseleave, when the tooltip is open and not disabled and \<open>hover\<close> is a
  trigger, the slot holds a new timer that runs \<open>requestClose\<close>, whose delay is
  \<open>closeDelay\<close>, or 50 when \<open>closeDelay\<close> is falsy (zero or \<open>NaN\<close>). The window runs it no
  earlier than that delay: before, nothing happens; from then on, \<open>requestClose\<close>
  runs. The callback that \<open>requestClose\<close> leaves for the time the pointer leaves the
  popup schedules, under the trigger \<open>hover\<close>, the closing with the same delay.
\<close>

theorem mouse_leave_close_delay:
  assumes "\<not> disabled s" and "open_flag s" and "hasTrigger s ''hover''"
    and "list_all (\<lambda>t. timer_id t < nextHandle s) (timers s)"
  shows
    "hoverTimeout (onMouseLeave s) = Some (nextHandle s) \<and>
     timers (onMouseLeave s) =
       filter (\<lambda>t. Some (timer_id t) \<noteq> hoverTimeout s) (timers s) @
       [\<lparr> timer_id = nextHandle s, started = now s,
          delay = (case closeDelay s of Num n \<Rightarrow> if n = 0 then 50 else n | NaN \<Rightarrow> 50),
          action = RequestClose \<rparr>] \<and>
     (\<forall>dt. fire (nextHandle s) (tick dt (onMouseLeave s)) =
        (if dt < nat (case closeDelay s of Num n \<Rightarrow> if n = 0 then 50 else n | NaN \<Rightarrow> 50)
         then tick dt (onMouseLeave s)
         else requestClose
                ((tick dt (onMouseLeave s))
                   \<lparr> timers := filter (\<lambda>t. Some (timer_id t) \<noteq> hoverTimeout s) (timers s) \<rparr>))) \<and>
     hoverTimeout (afterPopupLeave s) = Some (nextHandle s) \<and>
     timers (afterPopupLeave s) =
       timers s @
       [\<lparr> timer_id = nextHandle s, started = now s,
          delay = (case closeDelay s of Num n \<Rightarrow> if n = 0 then 50 else n | NaN \<Rightarrow> 50),
          action = OpenFalse \<rparr>] \<and>
     (\<forall>dt. open_flag (fire (nextHandle s) (tick dt (afterPopupLeave s))) =
        (dt < nat (case closeDelay s of Num n \<Rightarrow> if n = 0 then 50 else n | NaN \<Rightarrow> 50)))"
proof -
  let ?D = "case closeDelay s of Num n \<Rightarrow> if n = 0 then 50 else n | NaN \<Rightarrow> 50"
  let ?kept = "filter (\<lambda>t. Some (timer_id t) \<noteq> hoverTimeout s) (timers s)"
  let ?close = "\<lparr> timer_id = nextHandle s, started = now s, delay = ?D, action = RequestClose \<rparr>"
  let ?shut = "\<lparr> timer_id = nextHandle s, started = now s, delay = ?D, action = OpenFalse \<rparr>"
  note leave = mouse_leave_timer [OF assms(1-3)]
  note later = after_popup_leave_timer [OF assms(3)]
  have fired: "fire (nextHandle s) (tick dt (onMouseLeave s)) =
        (if dt < nat ?D then tick dt (onMouseLeave s)
         else requestClose ((tick dt (onMouseLeave s))\<lparr> timers := ?kept \<rparr>))" for dt
  proof -
    have "timers (tick dt (onMouseLeave s)) = ?kept @ [?close]"
      using leave(2) by simp
    moreover have "timer_id ?close = nextHandle s" by simp
    moreover have "list_all (\<lambda>u. timer_id u \<noteq> nextHandle s) ?kept"
      using assms(4) by (rule fresh_not_cleared)
    ultimately have "fire (nextHandle s) (tick dt (onMouseLeave s)) =
        (if due ?close \<le> now (tick dt (onMouseLeave s))
         then run_callback (action ?close) ((tick dt (onMouseLeave s))\<lparr> timers := ?kept \<rparr>)
         else tick dt (onMouseLeave s))"
      by (rule fire_last)
    then show ?thesis
      using leave(4) by (simp add: due_def not_less)
  qed
  have shut: "open_flag (fire (nextHandle s) (tick dt (afterPopupLeave s))) = (dt < nat ?D)" for dt
  proof -
    have "timers (tick dt (afterPopupLeave s)) = timers s @ [?shut]"
      using later(2) by simp
    moreover have "timer_id ?shut = nextHandle s" by simp
    moreover have "list_all (\<lambda>u. timer_id u \<noteq> nextHandle s) (timers s)"
      using assms(4) by (auto simp: list_all_iff)
    ultimately have "fire (nextHandle s) (tick dt (afterPopupLeave s)) =
        (if due ?shut \<le> now (tick dt (afterPopupLeave s))
         then run_callback (action ?shut) ((tick dt (afterPopupLeave s))\<lparr> timers := timers s \<rparr>)
         else tick dt (afterPopupLeave s))"
      by (rule fire_last)
    moreover have "now (afterPopupLeave s) = now s"
      using assms(3) by (simp add: afterPopupLeave_def split_beta)
    ultimately show ?thesis
      using later(3) assms(2) by (auto simp: due_def)
  qed
  show ?thesis
    using leave(1,2) later(1,2) fired shut by blast
qed

text \<open>
  The theorem on an open tooltip with the trigger \<open>hover\<close> and a \<open>closeDelay\<close> of zero:
  the delay of the timer is 50; run after 49 milliseconds it leaves the tooltip open, run
  after 50 it closes it.
\<close>

theorem mouse_leave_close_delay_witness:
  "\<not> disabled hover_open_zero \<and> open_flag hover_open_zero \<and>
   hasTrigger hover_open_zero ''hover'' \<and> closeDelay hover_open_zero = Num 0 \<and>
   timers (onMouseLeave hover_open_zero) =
     [\<lparr> timer_id = 1, started = 0, delay = 50, action = RequestClose \<rparr>] \<and>
   open_flag (fire 1 (tick 49 (onMouseLeave hover_open_zero))) \<and>
   \<not> open_flag (fire 1 (tick 50 (onMouseLeave hover_open_zero))) \<and>
   timers (afterPopupLeave hover_open_zero) =
     [\<lparr> timer_id = 1, started = 0, delay = 50, action = OpenFalse \<rparr>] \<and>
   open_flag (fire 1 (tick 49 (afterPopupLeave hover_open_zero))) \<and>
   \<not> open_flag (fire 1 (tick 50 (afterPopupLeave hover_open_zero)))"
proof -
  have h: "\<not> disabled hover_open_zero" "open_flag hover_open_zero"
    "hasTrigger hover_open_zero ''hover''"
    "list_all (\<lambda>t. timer_id t < nextHandle hover_open_zero) (timers hover_open_zero)"
    by (simp_all add: hover_open_zero_def hover_open_def initial_def hasTrigger_def)
  have v: "closeDelay hover_open_zero = Num 0" "nextHandle hover_open_zero = 1"
    "now hover_open_zero = 0" "timers hover_open_zero = []"
    "hoverTimeout hover_open_zero = None" "\<not> isHover hover_open_zero"
    by (simp_all add: hover_open_zero_def hover_open_def initial_def)
  note t = mouse_leave_close_delay [OF h, unfolded v, simplified]
  have "open_flag (fire 1 (tick 49 (onMouseLeave hover_open_zero)))"
    using t mouse_leave_timer(3) [OF h(1-3)] by simp
  moreover have "\<not> open_flag (fire 1 (tick 50 (onMouseLeave hover_open_zero)))"
    using t mouse_leave_timer(5) [OF h(1-3)] v(6) by (simp add: requestClose_def)
  ultimately show ?thesis
    using h(1-3) v(1) t by simp
qed

subsection \<open>A pointer-down on the document\<close>

lemma onDocumentClick_inside: "onDocumentClick True s = s"
  by (simp add: onDocumentClick_def)

lemma onDocumentClick_outside:
  "\<not> disabled s \<Longrightarrow> open_flag s \<Longrightarrow>
   onDocumentClick False s =
     (if isHover s then s\<lparr> mouseLeaveItems := Suc (mouseLeaveItems s) \<rparr>
      else s\<lparr> open_flag := False \<rparr>)"
  by (simp add: onDocumentClick_def requestClose_def)

text \<open>
  C6 at an open tooltip, not disabled, while the pointer is over the popup: a pointer-down
  whose path does not include the tooltip goes through \<open>requestClose\<close>, which leaves the
  tooltip open and registers a callback for the time the pointer leaves the popup. With
  the pointer elsewhere the same pointer-down closes the tooltip at once, and a
  pointer-down whose path includes the tooltip changes nothing.
\<close>

theorem outside_pointer_down_over_popup:
  "\<not> disabled hovered_popup \<and> open_flag hovered_popup \<and> isHover hovered_popup \<and>
   open_flag (onDocumentClick False hovered_popup) \<and>
   mouseLeaveItems (onDocumentClick False hovered_popup) = 1 \<and>
   timers (onDocumentClick False hovered_popup) = [] \<and>
   \<not> open_flag (onDocumentClick False hover_open) \<and>
   onDocumentClick True hovered_popup = hovered_popup"
  by (simp add: hovered_popup_def hover_open_def initial_def popupEnter_def
        onDocumentClick_def requestClose_def)

section \<open>Properties of \<open>onOpenChange\<close>\<close>

lemma others_iff:
  "j \<in> set (others i ts) \<longleftrightarrow> j < length ts \<and> j \<noteq> i \<and> variant (ts ! j) = variant (ts ! i)"
  by (auto simp: others_def)

lemma closeOthers_length [simp]: "length (closeOthers i ts) = length ts"
  by (simp add: closeOthers_def)

lemma closeOthers_nth:
  "j < length ts \<Longrightarrow>
   closeOthers i ts ! j =
     (if j \<noteq> i \<and> variant (ts ! j) = variant (ts ! i) then (ts ! j)\<lparr> open_flag := False \<rparr>
      else ts ! j)"
  by (simp add: closeOthers_def others_iff)

lemma showPopup_elements:
  "elements (showPopup prevented i updated pg) =
     (elements pg)[i := (elements pg ! i)\<lparr> popupHidden := False \<rparr>]"
  by (simp add: showPopup_def Let_def emit_def record_effect_def setPopupHidden_def)

lemma showPopup_trace:
  "trace (showPopup prevented i updated pg) =
     trace pg @ [StopAnimations i, SetHidden i False, Positioned i,
                 AnimateTo i Entrance (\<not> updated)] @
     (if updated then [Emit i ''opened''] else [])"
  by (simp add: showPopup_def Let_def emit_def record_effect_def setPopupHidden_def)

lemma onOpenChange_opening_elements:
  assumes "open_flag (elements pg ! i)"
  shows "elements (onOpenChange prevented i pg) =
           (if hasUpdated (elements pg ! i) \<and> prevented i ''open''
            then closeOthers i (elements pg)
            else (closeOthers i (elements pg))
                   [i := (closeOthers i (elements pg) ! i)\<lparr> popupHidden := False \<rparr>])"
  using assms
  by (simp add: onOpenChange_def Let_def emit_def showPopup_elements)

lemma onOpenChange_opening_trace:
  assumes "open_flag (elements pg ! i)"
  shows "trace (onOpenChange prevented i pg) =
           trace pg @ map (\<lambda>j. PropOpen j False) (others i (elements pg)) @
           (if hasUpdated (elements pg ! i) then [Emit i ''open''] else []) @
           (if hasUpdated (elements pg ! i) \<and> prevented i ''open'' then []
            else [StopAnimations i, SetHidden i False, Positioned i,
                  AnimateTo i Entrance (\<not> hasUpdated (elements pg ! i))] @
                 (if hasUpdated (elements pg ! i) then [Emit i ''opened''] else []))"
  using assms
  by (simp add: onOpenChange_def Let_def emit_def showPopup_trace)

lemma onOpenChange_closing_elements:
  assumes "\<not> open_flag (elements pg ! i)"
  shows "elements (onOpenChange prevented i pg) =
           (if hasUpdated (elements pg ! i) \<and> \<not> prevented i ''close''
            then (elements pg)[i := (elements pg ! i)\<lparr> popupHidden := True \<rparr>]
            else elements pg)"
  using assms
  by (simp add: onOpenChange_def Let_def emit_def record_effect_def setPopupHidden_def)

lemma onOpenChange_closing_trace:
  assumes "\<not> open_flag (elements pg ! i)"
  shows "trace (onOpenChange prevented i pg) =
           trace pg @
           (if hasUpdated (elements pg ! i) then
              Emit i ''close'' #
              (if prevented i ''close'' then []
               else [StopAnimations i, AnimateTo i Exit False, SetHidden i True,
                     Emit i ''closed''])
            else [])"
  using assms
  by (simp add: onOpenChange_def Let_def emit_def record_effect_def setPopupHidden_def)

lemma onOpenChange_length [simp]:
  "length (elements (onOpenChange prevented i pg)) = length (elements pg)"
  by (cases "open_flag (elements pg ! i)")
    (simp_all add: onOpenChange_opening_elements onOpenChange_closing_elements)

lemma onOpenChange_own_open:
  assumes "i < length (elements pg)"
  shows "open_flag (elements (onOpenChange prevented i pg) ! i) = open_flag (elements pg ! i)"
  using assms
  by (cases "open_flag (elements pg ! i)")
    (simp_all add: onOpenChange_opening_elements onOpenChange_closing_elements closeOthers_nth)

lemma onOpenChange_others_fields:
  assumes "i < length (elements pg)" and "open_flag (elements pg ! i)"
    and "j < length (elements pg)" and "j \<noteq> i"
    and "variant (elements pg ! j) = variant (elements pg ! i)"
  shows "elements (onOpenChange prevented i pg) ! j = (elements pg ! j)\<lparr> open_flag := False \<rparr>"
  using assms
  by (simp add: onOpenChange_opening_elements closeOthers_nth)

lemma page_eqI:
  "elements (p :: page) = elements q \<Longrightarrow> trace p = t \<Longrightarrow> p = q\<lparr> trace := t \<rparr>"
  by (cases p; cases q) simp

lemma onOpenChange_rejected_close:
  assumes "\<not> open_flag (elements pg ! j)" and "hasUpdated (elements pg ! j)"
    and "prevented j ''close''"
  shows "onOpenChange prevented j pg = pg\<lparr> trace := trace pg @ [Emit j ''close''] \<rparr>"
  using assms
  by (intro page_eqI) (simp_all add: onOpenChange_closing_elements onOpenChange_closing_trace)

lemma onOpenChange_accepted_close:
  assumes "\<not> open_flag (elements pg ! j)" and "hasUpdated (elements pg ! j)"
    and "\<not> prevented j ''close''"
  shows "trace (onOpenChange prevented j pg) =
           trace pg @ [Emit j ''close'', StopAnimations j, AnimateTo j Exit False,
                       SetHidden j True, Emit j ''closed'']"
    and "elements (onOpenChange prevented j pg) =
           (elements pg)[j := (elements pg ! j)\<lparr> popupHidden := True \<rparr>]"
  using assms
  by (simp_all add: onOpenChange_closing_elements onOpenChange_closing_trace)

text \<open>
  C7, as amended. When \<open>onOpenChange\<close> runs on a tooltip whose \<open>open\<close> is set and whose
  variant is \<open>plain\<close> or \<open>rich\<close>, it first unsets the \<open>open\<close> of every other tooltip of
  the page with the same variant, changing no other field of them: these writes stand in
  the trace before the tooltip's own \<open>open\<close> event, the calls on its popup, its animation
  and its \<open>opened\<close> event, they happen whatever the listeners of the page do, and the
  tooltip's own \<open>open\<close> stays set. When the reaction of such another tooltip, rendered,
  runs afterwards, its \<open>open\<close> stays unset, and its \<open>close\<close> event is emitted and can
  be rejected as for any close: rejected, nothing else happens and its popup stays as it
  was; not rejected, its animations are stopped, the exit is played, the popup is hidden
  and \<open>closed\<close> is emitted.
\<close>

theorem opening_unsets_open_of_others:
  assumes "i < length (elements pg)" and "open_flag (elements pg ! i)"
    and "variant (elements pg ! i) = ''plain'' \<or> variant (elements pg ! i) = ''rich''"
  shows
    "(\<forall>j < length (elements pg).
        j \<noteq> i \<and> variant (elements pg ! j) = variant (elements pg ! i) \<longrightarrow>
          elements (onOpenChange prevented i pg) ! j = (elements pg ! j)\<lparr> open_flag := False \<rparr> \<and>
          (hasUpdated (elements pg ! j) \<longrightarrow>
             (\<forall>prevented'.
                \<not> open_flag
                    (elements (onOpenChange prevented' j (onOpenChange prevented i pg)) ! j) \<and>
                (prevented' j ''close'' \<longrightarrow>
                   onOpenChange prevented' j (onOpenChange prevented i pg) =
                     (onOpenChange prevented i pg)
                       \<lparr> trace := trace (onOpenChange prevented i pg) @ [Emit j ''close''] \<rparr>) \<and>
                (\<not> prevented' j ''close'' \<longrightarrow>
                   trace (onOpenChange prevented' j (onOpenChange prevented i pg)) =
                     trace (onOpenChange prevented i pg) @
                     [Emit j ''close'', StopAnimations j, AnimateTo j Exit False,
                      SetHidden j True, Emit j ''closed''] \<and>
                   elements (onOpenChange prevented' j (onOpenChange prevented i pg)) =
                     (elements (onOpenChange prevented i pg))
                       [j := (elements (onOpenChange prevented i pg) ! j)
                               \<lparr> popupHidden := True \<rparr>])))) \<and>
     open_flag (elements (onOpenChange prevented i pg) ! i) \<and>
     trace (onOpenChange prevented i pg) =
       trace pg @ map (\<lambda>j. PropOpen j False) (others i (elements pg)) @
       (if hasUpdated (elements pg ! i) then [Emit i ''open''] else []) @
       (if hasUpdated (elements pg ! i) \<and> prevented i ''open'' then []
        else [StopAnimations i, SetHidden i False, Positioned i,
              AnimateTo i Entrance (\<not> hasUpdated (elements pg ! i))] @
             (if hasUpdated (elements pg ! i) then [Emit i ''opened''] else [])) \<and>
     set (others i (elements pg)) =
       {j. j < length (elements pg) \<and> j \<noteq> i \<and>
           variant (elements pg ! j) = variant (elements pg ! i)}"
proof -
  let ?R = "onOpenChange prevented i pg"
  have fields: "elements ?R ! j = (elements pg ! j)\<lparr> open_flag := False \<rparr>"
    if "j < length (elements pg)" "j \<noteq> i"
      "variant (elements pg ! j) = variant (elements pg ! i)" for j
    using assms(1,2) that by (rule onOpenChange_others_fields)
  have reaction:
    "\<not> open_flag (elements (onOpenChange prevented' j ?R) ! j) \<and>
     (prevented' j ''close'' \<longrightarrow>
        onOpenChange prevented' j ?R = ?R\<lparr> trace := trace ?R @ [Emit j ''close''] \<rparr>) \<and>
     (\<not> prevented' j ''close'' \<longrightarrow>
        trace (onOpenChange prevented' j ?R) =
          trace ?R @ [Emit j ''close'', StopAnimations j, AnimateTo j Exit False,
                      SetHidden j True, Emit j ''closed''] \<and>
        elements (onOpenChange prevented' j ?R) =
          (elements ?R)[j := (elements ?R ! j)\<lparr> popupHidden := True \<rparr>])"
    if "j < length (elements pg)" "j \<noteq> i"
      "variant (elements pg ! j) = variant (elements pg ! i)"
      "hasUpdated (elements pg ! j)" for j prevented'
  proof -
    have c: "\<not> open_flag (elements ?R ! j)" and u: "hasUpdated (elements ?R ! j)"
      using fields [OF that(1-3)] that(4) by simp_all
    have "j < length (elements ?R)"
      using that(1) by simp
    then have "open_flag (elements (onOpenChange prevented' j ?R) ! j) =
        open_flag (elements ?R ! j)"
      by (rule onOpenChange_own_open)
    then show ?thesis
      using c onOpenChange_rejected_close [OF c u, of prevented']
        onOpenChange_accepted_close [OF c u, of prevented']
      by simp
  qed
  have own: "open_flag (elements ?R ! i)"
    using assms(1,2) by (simp add: onOpenChange_own_open)
  have sel: "set (others i (elements pg)) =
       {j. j < length (elements pg) \<and> j \<noteq> i \<and>
           variant (elements pg ! j) = variant (elements pg ! i)}"
    by (auto simp: others_iff)
  show ?thesis
    using fields reaction own sel onOpenChange_opening_trace [OF assms(2), of prevented]
    by simp
qed

text \<open>
  The theorem on the page of three tooltips where the second has been opened and the
  listeners reject the \<open>close\<close> event of the first: the first has \<open>open\<close> unset before
  the \<open>open\<close> event of the second, the rich one is left alone, and after the reaction of
  the first its \<open>open\<close> is unset still while its popup is shown as before.
\<close>

theorem opening_unsets_open_of_others_witness:
  "open_flag (elements three_tooltips ! 0) \<and>
   variant (elements three_tooltips ! 1) = ''plain'' \<and>
   elements (onOpenChange (rejects_close 0) 1 three_tooltips) ! 0 =
     (elements three_tooltips ! 0)\<lparr> open_flag := False \<rparr> \<and>
   open_flag (elements (onOpenChange (rejects_close 0) 1 three_tooltips) ! 1) \<and>
   open_flag (elements (onOpenChange (rejects_close 0) 1 three_tooltips) ! 2) \<and>
   trace (onOpenChange (rejects_close 0) 1 three_tooltips) =
     [PropOpen 0 False, Emit 1 ''open'', StopAnimations 1, SetHidden 1 False, Positioned 1,
      AnimateTo 1 Entrance False, Emit 1 ''opened''] \<and>
   \<not> open_flag (elements (onOpenChange (rejects_close 0) 0
                            (onOpenChange (rejects_close 0) 1 three_tooltips)) ! 0) \<and>
   onOpenChange (rejects_close 0) 0 (onOpenChange (rejects_close 0) 1 three_tooltips) =
     (onOpenChange (rejects_close 0) 1 three_tooltips)
       \<lparr> trace := trace (onOpenChange (rejects_close 0) 1 three_tooltips) @ [Emit 0 ''close''] \<rparr>"
proof -
  have h: "1 < length (elements three_tooltips)" "open_flag (elements three_tooltips ! 1)"
    "variant (elements three_tooltips ! 1) = ''plain'' \<or>
     variant (elements three_tooltips ! 1) = ''rich''"
    by (simp_all add: three_tooltips_def rendered_def)
  have o: "others 1 (elements three_tooltips) = [0]"
    by (simp add: others_def three_tooltips_def rendered_def upt_rec)
  have v: "variant (elements three_tooltips ! 0) = variant (elements three_tooltips ! 1)"
    "hasUpdated (elements three_tooltips ! 1)" "0 < length (elements three_tooltips)"
    "hasUpdated (elements three_tooltips ! 0)"
    "open_flag (elements three_tooltips ! 0)" "trace three_tooltips = []"
    "variant (elements three_tooltips ! 1) = ''plain''"
    by (simp_all add: three_tooltips_def rendered_def)
  have r: "rejects_close 0 0 ''close''" "\<not> rejects_close 0 1 ''open''"
    by (simp_all add: rejects_close_def)
  note t = opening_unsets_open_of_others [OF h, of "rejects_close 0"]
  from t v have first:
    "elements (onOpenChange (rejects_close 0) 1 three_tooltips) ! 0 =
       (elements three_tooltips ! 0)\<lparr> open_flag := False \<rparr>"
    "\<not> open_flag (elements (onOpenChange (rejects_close 0) 0
                            (onOpenChange (rejects_close 0) 1 three_tooltips)) ! 0)"
    "rejects_close 0 0 ''close'' \<longrightarrow>
       onOpenChange (rejects_close 0) 0 (onOpenChange (rejects_close 0) 1 three_tooltips) =
       (onOpenChange (rejects_close 0) 1 three_tooltips)
         \<lparr> trace := trace (onOpenChange (rejects_close 0) 1 three_tooltips) @ [Emit 0 ''close''] \<rparr>"
    by auto
  from t have own: "open_flag (elements (onOpenChange (rejects_close 0) 1 three_tooltips) ! 1)"
    by simp
  from t v o r have tr: "trace (onOpenChange (rejects_close 0) 1 three_tooltips) =
      [PropOpen 0 False, Emit 1 ''open'', StopAnimations 1, SetHidden 1 False, Positioned 1,
       AnimateTo 1 Entrance False, Emit 1 ''opened'']"
    by simp
  have rich: "open_flag (elements (onOpenChange (rejects_close 0) 1 three_tooltips) ! 2)"
    by code_simp
  show ?thesis
    using v(5,7) first r(1) own rich tr by simp
qed

text \<open>
  C7 as stated fails: the close of the other tooltip can be rejected. On the page of
  three tooltips the second is opened, which unsets the \<open>open\<close> of the first. When the
  listeners of the first reject its \<open>close\<close> event, its popup is not hidden and \<open>closed\<close>
  is not emitted; when they do not, the popup is hidden and \<open>closed\<close> is emitted.
\<close>

theorem forced_close_rejected_counterexample:
  "open_flag (elements three_tooltips ! 0) \<and>
   \<not> popupHidden (elements three_tooltips ! 0) \<and>
   \<not> open_flag (elements (onOpenChange (rejects_close 0) 1 three_tooltips) ! 0) \<and>
   \<not> popupHidden
       (elements (onOpenChange (rejects_close 0) 0
                    (onOpenChange (rejects_close 0) 1 three_tooltips)) ! 0) \<and>
   trace (onOpenChange (rejects_close 0) 0 (onOpenChange (rejects_close 0) 1 three_tooltips)) =
     [PropOpen 0 False, Emit 1 ''open'', StopAnimations 1, SetHidden 1 False, Positioned 1,
      AnimateTo 1 Entrance False, Emit 1 ''opened'', Emit 0 ''close''] \<and>
   popupHidden
     (elements (onOpenChange never_prevented 0
                  (onOpenChange never_prevented 1 three_tooltips)) ! 0) \<and>
   trace (onOpenChange never_prevented 0 (onOpenChange never_prevented 1 three_tooltips)) =
     [PropOpen 0 False, Emit 1 ''open'', StopAnimations 1, SetHidden 1 False, Positioned 1,
      AnimateTo 1 Entrance False, Emit 1 ''opened'', Emit 0 ''close'', StopAnimations 0,
      AnimateTo 0 Exit False, SetHidden 0 True, Emit 0 ''closed'']"
  by code_simp

text \<open>
  C8. On a rendered tooltip, when a listener rejects the \<open>open\<close> event, \<open>onOpenChange\<close> does
  nothing after the event: the trace ends with it, and the tooltip's fields, its popup's
  \<open>hidden\<close> flag among them, are as before; when a listener rejects the \<open>close\<close> event
  the same holds, and the page is as before. When the event is not rejected the
  animation is stopped and played, the popup is shown or hidden, and \<open>opened\<close> or
  \<open>closed\<close> is emitted. In every case the tooltip's \<open>open\<close> is what it was: the function
  does not set it back.
\<close>

theorem prevented_event_keeps_open:
  assumes "i < length (elements pg)" and "hasUpdated (elements pg ! i)"
  shows
    "(open_flag (elements pg ! i) \<and> prevented i ''open'' \<longrightarrow>
        trace (onOpenChange prevented i pg) =
          trace pg @ map (\<lambda>j. PropOpen j False) (others i (elements pg)) @ [Emit i ''open''] \<and>
        elements (onOpenChange prevented i pg) ! i = elements pg ! i) \<and>
     (open_flag (elements pg ! i) \<and> \<not> prevented i ''open'' \<longrightarrow>
        trace (onOpenChange prevented i pg) =
          trace pg @ map (\<lambda>j. PropOpen j False) (others i (elements pg)) @
          [Emit i ''open'', StopAnimations i, SetHidden i False, Positioned i,
           AnimateTo i Entrance False, Emit i ''opened''] \<and>
        elements (onOpenChange prevented i pg) ! i = (elements pg ! i)\<lparr> popupHidden := False \<rparr>) \<and>
     (\<not> open_flag (elements pg ! i) \<and> prevented i ''close'' \<longrightarrow>
        trace (onOpenChange prevented i pg) = trace pg @ [Emit i ''close''] \<and>
        elements (onOpenChange prevented i pg) = elements pg) \<and>
     (\<not> open_flag (elements pg ! i) \<and> \<not> prevented i ''close'' \<longrightarrow>
        trace (onOpenChange prevented i pg) =
          trace pg @ [Emit i ''close'', StopAnimations i, AnimateTo i Exit False,
                      SetHidden i True, Emit i ''closed''] \<and>
        elements (onOpenChange prevented i pg) =
          (elements pg)[i := (elements pg ! i)\<lparr> popupHidden := True \<rparr>]) \<and>
     open_flag (elements (onOpenChange prevented i pg) ! i) = open_flag (elements pg ! i)"
proof (cases "open_flag (elements pg ! i)")
  case True
  show ?thesis
    using assms True onOpenChange_own_open [OF assms(1), of prevented]
    by (simp add: onOpenChange_opening_trace onOpenChange_opening_elements closeOthers_nth)
next
  case False
  show ?thesis
    using assms False onOpenChange_own_open [OF assms(1), of prevented]
    by (simp add: onOpenChange_closing_trace onOpenChange_closing_elements)
qed

text \<open>
  The theorem on the page of three tooltips: the second, open, with its \<open>open\<close> event
  rejected, keeps \<open>open\<close> set and its popup as it was; then the first, closed by the
  second, with its \<open>close\<close> event rejected, keeps \<open>open\<close> unset and its popup shown.
\<close>

theorem prevented_event_keeps_open_witness:
  "open_flag (elements (onOpenChange always_prevented 1 three_tooltips) ! 1) \<and>
   elements (onOpenChange always_prevented 1 three_tooltips) ! 1 = elements three_tooltips ! 1 \<and>
   trace (onOpenChange always_prevented 1 three_tooltips) = [PropOpen 0 False, Emit 1 ''open''] \<and>
   \<not> open_flag (elements closed_by_second ! 0) \<and> \<not> popupHidden (elements closed_by_second ! 0) \<and>
   onOpenChange always_prevented 0 closed_by_second =
     closed_by_second\<lparr> trace := [Emit 0 ''close''] \<rparr> \<and>
   trace (onOpenChange never_prevented 0 closed_by_second) =
     [Emit 0 ''close'', StopAnimations 0, AnimateTo 0 Exit False, SetHidden 0 True,
      Emit 0 ''closed''] \<and>
   popupHidden (elements (onOpenChange never_prevented 0 closed_by_second) ! 0) \<and>
   \<not> open_flag (elements (onOpenChange never_prevented 0 closed_by_second) ! 0)"
proof -
  have h: "1 < length (elements three_tooltips)" "hasUpdated (elements three_tooltips ! 1)"
    "open_flag (elements three_tooltips ! 1)" "trace three_tooltips = []"
    by (simp_all add: three_tooltips_def rendered_def)
  have o: "others 1 (elements three_tooltips) = [0]"
    by (simp add: others_def three_tooltips_def rendered_def upt_rec)
  have k: "0 < length (elements closed_by_second)" "hasUpdated (elements closed_by_second ! 0)"
    "\<not> open_flag (elements closed_by_second ! 0)" "\<not> popupHidden (elements closed_by_second ! 0)"
    "trace closed_by_second = []"
    by (simp_all add: closed_by_second_def rendered_def)
  note a = prevented_event_keeps_open [OF h(1,2), of always_prevented]
  note b = prevented_event_keeps_open [OF k(1,2), of always_prevented]
  note c = prevented_event_keeps_open [OF k(1,2), of never_prevented]
  have 1: "open_flag (elements (onOpenChange always_prevented 1 three_tooltips) ! 1)"
    "elements (onOpenChange always_prevented 1 three_tooltips) ! 1 = elements three_tooltips ! 1"
    "trace (onOpenChange always_prevented 1 three_tooltips) = [PropOpen 0 False, Emit 1 ''open'']"
    using a h o by (simp_all add: always_prevented_def)
  have 2: "trace (onOpenChange always_prevented 0 closed_by_second) = [Emit 0 ''close'']"
    "elements (onOpenChange always_prevented 0 closed_by_second) = elements closed_by_second"
    using b k by (simp_all add: always_prevented_def)
  then have 3: "onOpenChange always_prevented 0 closed_by_second =
     closed_by_second\<lparr> trace := [Emit 0 ''close''] \<rparr>"
    by (cases "onOpenChange always_prevented 0 closed_by_second"; cases closed_by_second) simp
  have 4: "trace (onOpenChange never_prevented 0 closed_by_second) =
     [Emit 0 ''close'', StopAnimations 0, AnimateTo 0 Exit False, SetHidden 0 True,
      Emit 0 ''closed'']"
    "popupHidden (elements (onOpenChange never_prevented 0 closed_by_second) ! 0)"
    "\<not> open_flag (elements (onOpenChange never_prevented 0 closed_by_second) ! 0)"
    using c k by (simp_all add: never_prevented_def)
  show ?thesis
    using 1 3 4 k(3,4) by simp
qed

section \<open>Properties of the switch\<close>

text \<open>
  C10. \<open>checkValidity\<close> returns what the checkbox answers, emits \<open>invalid\<close> exactly when it
  returns false, and leaves every field of the switch as it was. \<open>reportValidity\<close> also
  emits \<open>invalid\<close> exactly when it returns false, and it sets the field \<open>invalid\<close> to the
  negation of what the checkbox answers, changing no other field.
\<close>

theorem checkValidity_emits_and_keeps_state:
  "fst (checkValidity native s) = native s \<and>
   (EmitInvalid \<in> set (fst (snd (checkValidity native s)))) = (\<not> fst (checkValidity native s)) \<and>
   snd (snd (checkValidity native s)) = s \<and>
   fst (reportValidity native prevented s) = native s \<and>
   (EmitInvalid \<in> set (fst (snd (reportValidity native prevented s)))) =
     (\<not> fst (reportValidity native prevented s)) \<and>
   snd (snd (reportValidity native prevented s)) = s\<lparr> invalid := \<not> native s \<rparr>"
  by (simp add: checkValidity_def reportValidity_def Let_def)

text \<open>
  The theorem on a required switch that is not checked, and whose field \<open>invalid\<close> is
  unset: both functions return false and emit the event; after \<open>checkValidity\<close> the field
  is unset still, after \<open>reportValidity\<close> it is set.
\<close>

theorem checkValidity_emits_and_keeps_state_witness:
  "\<not> required_rule unchecked_required \<and> \<not> invalid unchecked_required \<and>
   checkValidity required_rule unchecked_required = (False, [EmitInvalid], unchecked_required) \<and>
   \<not> fst (reportValidity required_rule False unchecked_required) \<and>
   fst (snd (reportValidity required_rule False unchecked_required)) = [EmitInvalid] \<and>
   invalid (snd (snd (reportValidity required_rule False unchecked_required))) \<and>
   \<not> checked (snd (snd (reportValidity required_rule False unchecked_required)))"
proof -
  have n: "\<not> required_rule unchecked_required" "\<not> invalid unchecked_required"
    "\<not> checked unchecked_required"
    by (simp_all add: required_rule_def unchecked_required_def)
  note t = checkValidity_emits_and_keeps_state [of required_rule unchecked_required False]
  have e: "fst (snd (checkValidity required_rule unchecked_required)) = [EmitInvalid]"
    "fst (snd (reportValidity required_rule False unchecked_required)) = [EmitInvalid]"
    using n by (simp_all add: checkValidity_def reportValidity_def Let_def)
  have "checkValidity required_rule unchecked_required = (False, [EmitInvalid], unchecked_required)"
    using t n e by (cases "checkValidity required_rule unchecked_required") simp
  then show ?thesis
    using t n e by simp
qed

end
